theory Spec2Isabelle
  imports Main
begin

section \<open>JavaScript values\<close>

text \<open>
  The values that can reach the \<open>target\<close> setter of \<open>ClipboardAction\<close>. A DOM node is a
  reference into the node store of the world; \<open>JObject\<close> is an object that is not a DOM
  node and has no \<open>nodeType\<close> property.
\<close>

datatype jsval = JUndefined | JNull | JBool bool | JNum int | JStr string | JNode nat | JObject

fun truthy :: "jsval \<Rightarrow> bool" where
  "truthy JUndefined = False"
| "truthy JNull = False"
| "truthy (JBool b) = b"
| "truthy (JNum n) = (n \<noteq> 0)"
| "truthy (JStr s) = (s \<noteq> [])"
| "truthy (JNode n) = True"
| "truthy JObject = True"

fun typeof :: "jsval \<Rightarrow> string" where
  "typeof JUndefined = ''undefined''"
| "typeof JNull = ''object''"
| "typeof (JBool b) = ''boolean''"
| "typeof (JNum n) = ''number''"
| "typeof (JStr s) = ''string''"
| "typeof (JNode n) = ''object''"
| "typeof JObject = ''object''"

text \<open>
  A value that is a string or absent (\<open>undefined\<close>, \<open>null\<close>): what \<open>getAttributeValue\<close>
  returns and what the \<open>text\<close> and \<open>action\<close> options hold. The source only ever tests
  such a value for truthiness or compares it with \<open>===\<close>, so \<open>undefined\<close> and \<open>null\<close>
  are one case, \<open>None\<close>.
\<close>

definition truthyStr :: "string option \<Rightarrow> bool" where
  "truthyStr t = (case t of None \<Rightarrow> False | Some s \<Rightarrow> s \<noteq> [])"

section \<open>The document, the executors and the controllers\<close>

datatype error =
    InvalidTargetDisabled
  | InvalidTargetCut
  | InvalidTargetValue
  | NotFoundError
  | TypeError
  | SyntaxError

text \<open>
  The arrow function \<open>() => this.removeFake()\<close> of \<open>selectFake\<close>. An executor evaluates it
  once, in its constructor, so the closure is identified by the executor it captures.
\<close>

datatype callback = RemoveFake nat

datatype cmd_result = Returned bool | Thrown

datatype query_result = Found nat | NoMatch | BadSelector

datatype 'a resolver = DefaultResolver | CustomResolver "nat \<Rightarrow> 'a"

record node =
  nodeType :: nat
  tagName :: string
  attributes :: "string \<rightharpoonup> string"
  style :: "string \<rightharpoonup> string"
  elemValue :: string
  childNodes :: "nat list"
  clickListeners :: "callback list"

record clipboard_action =
  a_container :: nat
  a_emitter :: nat
  a_text :: "string option"
  a_trigger :: "nat option"
  selectedText :: string
  a_target :: jsval
  fakeElem :: "nat option"
  fakeHandlerCallback :: "callback option"
  fakeHandler :: jsval
  a_action :: "string option"

record action_options =
  o_action :: "string option"
  o_container :: nat
  o_emitter :: nat
  o_target :: jsval
  o_text :: "string option"
  o_trigger :: "nat option"

text \<open>The payload of an event; \<open>clearSelection\<close> is the method bound to the executor named.\<close>

record payload =
  p_action :: "string option"
  p_text :: string
  p_trigger :: "nat option"
  clearSelection :: nat

record clipboard =
  c_action :: "string option resolver"
  c_target :: "jsval resolver"
  c_text :: "string option resolver"
  c_container :: nat
  clipboardAction :: "nat option"
  listener :: bool

record clipboard_options =
  opt_action :: "(nat \<Rightarrow> string option) option"
  opt_target :: "(nat \<Rightarrow> jsval) option"
  opt_text :: "(nat \<Rightarrow> string option) option"
  opt_container :: "nat option"

text \<open>
  The mutable state: the DOM nodes, the executor and controller objects (stores indexed by
  reference, with allocation counters), the live selection, the focused element, the log
  of platform commands invoked and the log of events emitted (emitter, name, payload).
\<close>

record world =
  nodes :: "nat \<Rightarrow> node"
  nextNode :: nat
  actions :: "nat \<Rightarrow> clipboard_action"
  nextAction :: nat
  clipboards :: "nat \<Rightarrow> clipboard"
  nextClipboard :: nat
  selection :: "nat option"
  activeElement :: "nat option"
  commands :: "string option list"
  emitted :: "(nat \<times> string \<times> payload) list"

text \<open>
  The platform the code runs on: \<open>document.execCommand\<close> (which may return a boolean or
  throw), the \<open>dir\<close> attribute of the document element, the scroll offsets,
  \<open>document.queryCommandSupported\<close> (absent on some platforms), \<open>document.querySelector\<close>
  and \<open>document.body\<close>.
\<close>

record platform =
  execCommand :: "world \<Rightarrow> string option \<Rightarrow> cmd_result"
  documentDir :: "string option"
  pageYOffset :: nat
  scrollTop :: nat
  queryCommandSupported :: "(string \<Rightarrow> bool) option"
  querySelector :: "string \<Rightarrow> query_result"
  body :: nat

definition updNode :: "nat \<Rightarrow> (node \<Rightarrow> node) \<Rightarrow> world \<Rightarrow> world" where
  "updNode n f w = w\<lparr>nodes := (nodes w)(n := f (nodes w n))\<rparr>"

definition updAction :: "nat \<Rightarrow> (clipboard_action \<Rightarrow> clipboard_action) \<Rightarrow> world \<Rightarrow> world" where
  "updAction a f w = w\<lparr>actions := (actions w)(a := f (actions w a))\<rparr>"

definition updClipboard :: "nat \<Rightarrow> (clipboard \<Rightarrow> clipboard) \<Rightarrow> world \<Rightarrow> world" where
  "updClipboard c f w = w\<lparr>clipboards := (clipboards w)(c := f (clipboards w c))\<rparr>"

text \<open>
  A call either completes or throws; both leave a world behind, the one reached when the
  exception was raised in the second case.
\<close>

definition andThen ::
  "error option \<times> world \<Rightarrow> (world \<Rightarrow> error option \<times> world) \<Rightarrow> error option \<times> world" where
  "andThen r f = (case r of (None, w) \<Rightarrow> f w | (Some e, w) \<Rightarrow> (Some e, w))"

subsection \<open>DOM primitives\<close>

definition hasAttribute :: "world \<Rightarrow> nat \<Rightarrow> string \<Rightarrow> bool" where
  "hasAttribute w n k = (attributes (nodes w n) k \<noteq> None)"

definition getAttribute :: "world \<Rightarrow> nat \<Rightarrow> string \<Rightarrow> string option" where
  "getAttribute w n k = attributes (nodes w n) k"

definition createElement :: "string \<Rightarrow> world \<Rightarrow> nat \<times> world" where
  "createElement tag w =
     (nextNode w,
      w\<lparr>nodes := (nodes w)(nextNode w :=
           \<lparr>nodeType = 1, tagName = tag, attributes = Map.empty, style = Map.empty,
            elemValue = [], childNodes = [], clickListeners = []\<rparr>),
        nextNode := Suc (nextNode w)\<rparr>)"

definition addEventListener :: "nat \<Rightarrow> callback \<Rightarrow> world \<Rightarrow> world" where
  "addEventListener c cb w =
     updNode c (\<lambda>n. n\<lparr>clickListeners :=
       (if cb \<in> set (clickListeners n) then clickListeners n else clickListeners n @ [cb])\<rparr>) w"

definition removeEventListener :: "nat \<Rightarrow> callback option \<Rightarrow> world \<Rightarrow> world" where
  "removeEventListener c cb w =
     (case cb of None \<Rightarrow> w
      | Some f \<Rightarrow> updNode c (\<lambda>n. n\<lparr>clickListeners := removeAll f (clickListeners n)\<rparr>) w)"

definition appendChild :: "nat \<Rightarrow> nat \<Rightarrow> world \<Rightarrow> world" where
  "appendChild c e w = updNode c (\<lambda>n. n\<lparr>childNodes := childNodes n @ [e]\<rparr>) w"

text \<open>\<open>removeChild\<close> throws \<open>NotFoundError\<close> when the node is not a child of the container.\<close>

definition removeChild :: "nat \<Rightarrow> nat \<Rightarrow> world \<Rightarrow> error option \<times> world" where
  "removeChild c e w =
     (if e \<in> set (childNodes (nodes w c))
      then (None, updNode c (\<lambda>n. n\<lparr>childNodes := removeAll e (childNodes n)\<rparr>) w)
      else (Some NotFoundError, w))"

text \<open>
  Modelled from the spec: the selection primitive (the \<open>select\<close> package, not part of the
  repository): "given an element, selects its full text content and returns the selected
  string".
\<close>

definition select_elem :: "nat \<Rightarrow> world \<Rightarrow> string \<times> world" where
  "select_elem e w = (elemValue (nodes w e), w\<lparr>selection := Some e\<rparr>)"

text \<open>The decimal digits of a number, for the template literal \<open>`${yPosition}px`\<close>.\<close>

fun show_nat :: "nat \<Rightarrow> string" where
  "show_nat n =
     (if n < 10 then [''0123456789'' ! n]
      else show_nat (n div 10) @ [''0123456789'' ! (n mod 10)])"

declare show_nat.simps [simp del]

section \<open>ClipboardAction\<close>

text \<open>
  Each method takes the reference \<open>this\<close> of the executor and the world, and returns the
  error thrown (if any) with the world it leaves. The container and the emitter of an
  executor are existing objects; \<open>emit\<close> appends the event to the log \<open>emitted\<close> (the
  listeners subscribed to the emitter are user code and are taken not to throw); the
  effect of the platform command on the clipboard is outside the model, which records
  that the command was invoked and what it returned.
\<close>

definition removeFake :: "nat \<Rightarrow> world \<Rightarrow> error option \<times> world" where
  "removeFake this w =
     (let w1 = (if truthy (fakeHandler (actions w this))
                then updAction this (\<lambda>a. a\<lparr>fakeHandler := JNull, fakeHandlerCallback := None\<rparr>)
                       (removeEventListener (a_container (actions w this))
                          (fakeHandlerCallback (actions w this)) w)
                else w)
      in case fakeElem (actions w1 this) of
           None \<Rightarrow> (None, w1)
         | Some e \<Rightarrow>
             andThen (removeChild (a_container (actions w1 this)) e w1)
               (\<lambda>w2. (None, updAction this (\<lambda>a. a\<lparr>fakeElem := None\<rparr>) w2)))"

definition handleResult :: "nat \<Rightarrow> bool \<Rightarrow> world \<Rightarrow> error option \<times> world" where
  "handleResult this succeeded w =
     (None,
      w\<lparr>emitted := emitted w @
          [(a_emitter (actions w this),
            if succeeded then ''success'' else ''error'',
            \<lparr>p_action = a_action (actions w this),
             p_text = selectedText (actions w this),
             p_trigger = a_trigger (actions w this),
             clearSelection = this\<rparr>)]\<rparr>)"

definition copyText :: "platform \<Rightarrow> nat \<Rightarrow> world \<Rightarrow> error option \<times> world" where
  "copyText p this w =
     (let succeeded = (case execCommand p w (a_action (actions w this)) of
                         Returned b \<Rightarrow> b
                       | Thrown \<Rightarrow> False)
      in handleResult this succeeded
           (w\<lparr>commands := commands w @ [a_action (actions w this)]\<rparr>))"

text \<open>
  \<open>selectFake\<close> is entered from \<open>initSelection\<close> only when the text is a non-empty string.
  For an absent text the assignment to \<open>value\<close> stores the string form of \<open>undefined\<close>.
\<close>

definition selectFake :: "platform \<Rightarrow> nat \<Rightarrow> world \<Rightarrow> error option \<times> world" where
  "selectFake p this w =
     (let isRTL = (documentDir p = Some ''rtl'') in
      andThen (removeFake this w) (\<lambda>w1.
        let cb = RemoveFake this;
            c = a_container (actions w1 this);
            w2 = updAction this (\<lambda>a. a\<lparr>fakeHandlerCallback := Some cb\<rparr>) w1;
            w3 = updAction this (\<lambda>a. a\<lparr>fakeHandler := JBool True\<rparr>) (addEventListener c cb w2);
            (e, w4) = createElement ''textarea'' w3;
            w5 = updAction this (\<lambda>a. a\<lparr>fakeElem := Some e\<rparr>) w4;
            yPosition = (if pageYOffset p \<noteq> 0 then pageYOffset p else scrollTop p);
            w6 = updNode e (\<lambda>n. n\<lparr>style := (style n)
                    (''fontSize'' \<mapsto> ''12pt'', ''border'' \<mapsto> ''0'', ''padding'' \<mapsto> ''0'',
                     ''margin'' \<mapsto> ''0'', ''position'' \<mapsto> ''absolute'',
                     (if isRTL then ''right'' else ''left'') \<mapsto> ''-9999px'',
                     ''top'' \<mapsto> show_nat yPosition @ ''px'')\<rparr>) w5;
            w7 = updNode e (\<lambda>n. n\<lparr>attributes := (attributes n)(''readonly'' \<mapsto> [])\<rparr>) w6;
            w8 = updNode e (\<lambda>n. n\<lparr>elemValue := (case a_text (actions w7 this) of
                                                   Some s \<Rightarrow> s | None \<Rightarrow> ''undefined'')\<rparr>) w7;
            w9 = appendChild c e w8;
            (s, w10) = select_elem e w9;
            w11 = updAction this (\<lambda>a. a\<lparr>selectedText := s\<rparr>) w10
        in copyText p this w11))"

definition selectTarget :: "platform \<Rightarrow> nat \<Rightarrow> world \<Rightarrow> error option \<times> world" where
  "selectTarget p this w =
     (case a_target (actions w this) of
        JNode n \<Rightarrow>
          (let (s, w1) = select_elem n w;
               w2 = updAction this (\<lambda>a. a\<lparr>selectedText := s\<rparr>) w1
           in copyText p this w2)
      | _ \<Rightarrow> (Some TypeError, w))"

definition initSelection :: "platform \<Rightarrow> nat \<Rightarrow> world \<Rightarrow> error option \<times> world" where
  "initSelection p this w =
     (if truthyStr (a_text (actions w this)) then selectFake p this w
      else if truthy (a_target (actions w this)) then selectTarget p this w
      else (None, w))"

text \<open>The \<open>nodeType\<close> property of a value: only DOM nodes have one.\<close>

definition nodeTypeOf :: "world \<Rightarrow> jsval \<Rightarrow> nat option" where
  "nodeTypeOf w v = (case v of JNode n \<Rightarrow> Some (nodeType (nodes w n)) | _ \<Rightarrow> None)"

text \<open>The setter of the \<open>target\<close> property.\<close>

definition set_target :: "nat \<Rightarrow> jsval \<Rightarrow> world \<Rightarrow> error option \<times> world" where
  "set_target this target w =
     (if target \<noteq> JUndefined then
        (if truthy target \<and> typeof target = ''object'' \<and> nodeTypeOf w target = Some 1 then
           (case target of
              JNode n \<Rightarrow>
                if a_action (actions w this) = Some ''copy'' \<and> hasAttribute w n ''disabled''
                then (Some InvalidTargetDisabled, w)
                else if a_action (actions w this) = Some ''cut'' \<and>
                        (hasAttribute w n ''readonly'' \<or> hasAttribute w n ''disabled'')
                then (Some InvalidTargetCut, w)
                else (None, updAction this (\<lambda>a. a\<lparr>a_target := target\<rparr>) w)
            | _ \<Rightarrow> (Some TypeError, w))
         else (Some InvalidTargetValue, w))
      else (None, w))"

definition ClipboardAction_resolveOptions ::
  "nat \<Rightarrow> action_options \<Rightarrow> world \<Rightarrow> error option \<times> world" where
  "ClipboardAction_resolveOptions this options w =
     (let w1 = updAction this (\<lambda>a. a\<lparr>a_action := o_action options\<rparr>) w;
          w2 = updAction this (\<lambda>a. a\<lparr>a_container := o_container options\<rparr>) w1;
          w3 = updAction this (\<lambda>a. a\<lparr>a_emitter := o_emitter options\<rparr>) w2
      in andThen (set_target this (o_target options) w3) (\<lambda>w4.
           let w5 = updAction this (\<lambda>a. a\<lparr>a_text := o_text options\<rparr>) w4;
               w6 = updAction this (\<lambda>a. a\<lparr>a_trigger := o_trigger options\<rparr>) w5
           in (None, updAction this (\<lambda>a. a\<lparr>selectedText := []\<rparr>) w6)))"

text \<open>
  \<open>new ClipboardAction(options)\<close>: the new object gets the reference \<open>nextAction w\<close> and the
  field initialisers of the class; then the constructor body runs.
\<close>

definition newAction :: "world \<Rightarrow> world" where
  "newAction w =
     w\<lparr>actions := (actions w)(nextAction w :=
          \<lparr>a_container = 0, a_emitter = 0, a_text = None, a_trigger = None,
           selectedText = [], a_target = JUndefined, fakeElem = None,
           fakeHandlerCallback = None, fakeHandler = JUndefined, a_action = Some ''copy''\<rparr>),
       nextAction := Suc (nextAction w)\<rparr>"

definition ClipboardAction_new ::
  "platform \<Rightarrow> action_options \<Rightarrow> world \<Rightarrow> error option \<times> world" where
  "ClipboardAction_new p options w =
     (let this = nextAction w in
      andThen (ClipboardAction_resolveOptions this options (newAction w))
        (initSelection p this))"

definition ClipboardAction_clearSelection :: "nat \<Rightarrow> world \<Rightarrow> world" where
  "ClipboardAction_clearSelection this w =
     (let w1 = (case a_trigger (actions w this) of
                  Some t \<Rightarrow> w\<lparr>activeElement := Some t\<rparr>
                | None \<Rightarrow> w)
      in w1\<lparr>activeElement := None, selection := None\<rparr>)"

definition ClipboardAction_destroy :: "nat \<Rightarrow> world \<Rightarrow> error option \<times> world" where
  "ClipboardAction_destroy this w = removeFake this w"

text \<open>
  Platform event dispatch on a container: the click listeners registered on the node when
  the event arrives run in registration order; a listener removed by an earlier one is
  skipped; an exception raised by a listener is reported by the platform and does not stop
  the dispatch.
\<close>

fun runListeners :: "callback list \<Rightarrow> nat \<Rightarrow> world \<Rightarrow> world" where
  "runListeners [] c w = w"
| "runListeners (RemoveFake a # cbs) c w =
     runListeners cbs c
       (if RemoveFake a \<in> set (clickListeners (nodes w c)) then snd (removeFake a w) else w)"

definition containerClick :: "nat \<Rightarrow> world \<Rightarrow> world" where
  "containerClick c w = runListeners (clickListeners (nodes w c)) c w"

section \<open>Clipboard\<close>

definition getAttributeValue :: "string \<Rightarrow> nat \<Rightarrow> world \<Rightarrow> string option" where
  "getAttributeValue suffix element w =
     (let attribute = ''data-clipboard-'' @ suffix
      in if \<not> hasAttribute w element attribute then None
         else getAttribute w element attribute)"

definition defaultAction :: "world \<Rightarrow> nat \<Rightarrow> string option" where
  "defaultAction w trigger = getAttributeValue ''action'' trigger w"

definition defaultTarget :: "platform \<Rightarrow> world \<Rightarrow> nat \<Rightarrow> error + jsval" where
  "defaultTarget p w trigger =
     (case getAttributeValue ''target'' trigger w of
        Some selector \<Rightarrow>
          if selector \<noteq> [] then
            (case querySelector p selector of
               Found n \<Rightarrow> Inr (JNode n)
             | NoMatch \<Rightarrow> Inr JNull
             | BadSelector \<Rightarrow> Inl SyntaxError)
          else Inr JNull
      | None \<Rightarrow> Inr JNull)"

definition defaultText :: "world \<Rightarrow> nat \<Rightarrow> string option" where
  "defaultText w trigger = getAttributeValue ''text'' trigger w"

definition Clipboard_resolveOptions ::
  "platform \<Rightarrow> nat \<Rightarrow> clipboard_options \<Rightarrow> world \<Rightarrow> world" where
  "Clipboard_resolveOptions p this options w =
     updClipboard this (\<lambda>c. c
       \<lparr>c_action := (case opt_action options of Some f \<Rightarrow> CustomResolver f
                                             | None \<Rightarrow> DefaultResolver),
        c_target := (case opt_target options of Some f \<Rightarrow> CustomResolver f
                                             | None \<Rightarrow> DefaultResolver),
        c_text := (case opt_text options of Some f \<Rightarrow> CustomResolver f
                                         | None \<Rightarrow> DefaultResolver),
        c_container := (case opt_container options of Some e \<Rightarrow> e | None \<Rightarrow> body p)\<rparr>) w"

text \<open>
  \<open>new Clipboard(trigger, options)\<close>. Modelled from the spec: the delegated-listener
  primitive (the \<open>good-listener\<close> package, not part of the repository) "attaches a listener
  and returns a handle exposing a destroy() that detaches it"; the field \<open>listener\<close> says
  whether the handle is still attached. The event-emitter base is the log \<open>emitted\<close>.
\<close>

definition Clipboard_new :: "platform \<Rightarrow> clipboard_options \<Rightarrow> world \<Rightarrow> world" where
  "Clipboard_new p options w =
     (let this = nextClipboard w;
          w1 = w\<lparr>clipboards := (clipboards w)(this :=
                   \<lparr>c_action = DefaultResolver, c_target = DefaultResolver,
                    c_text = DefaultResolver, c_container = body p,
                    clipboardAction = None, listener = False\<rparr>),
                 nextClipboard := Suc this\<rparr>;
          w2 = Clipboard_resolveOptions p this options w1
      in updClipboard this (\<lambda>c. c\<lparr>listener := True\<rparr>) w2)"

definition Clipboard_onClick :: "platform \<Rightarrow> nat \<Rightarrow> nat \<Rightarrow> world \<Rightarrow> error option \<times> world" where
  "Clipboard_onClick p this trigger w =
     (let w1 = (if clipboardAction (clipboards w this) \<noteq> None
                then updClipboard this (\<lambda>c. c\<lparr>clipboardAction := None\<rparr>) w
                else w);
          action = (case c_action (clipboards w1 this) of
                      DefaultResolver \<Rightarrow> defaultAction w1 trigger
                    | CustomResolver f \<Rightarrow> f trigger)
      in case (case c_target (clipboards w1 this) of
                 DefaultResolver \<Rightarrow> defaultTarget p w1 trigger
               | CustomResolver f \<Rightarrow> Inr (f trigger)) of
           Inl e \<Rightarrow> (Some e, w1)
         | Inr target \<Rightarrow>
             (let txt = (case c_text (clipboards w1 this) of
                           DefaultResolver \<Rightarrow> defaultText w1 trigger
                         | CustomResolver f \<Rightarrow> f trigger)
              in andThen
                   (ClipboardAction_new p
                      \<lparr>o_action = action, o_container = c_container (clipboards w1 this),
                       o_emitter = this, o_target = target, o_text = txt,
                       o_trigger = Some trigger\<rparr> w1)
                   (\<lambda>w2. (None,
                      updClipboard this (\<lambda>c. c\<lparr>clipboardAction := Some (nextAction w1)\<rparr>) w2))))"

text \<open>A click that the listener primitive delivers for \<open>trigger\<close>, if it is still attached.\<close>

definition Clipboard_click :: "platform \<Rightarrow> nat \<Rightarrow> nat \<Rightarrow> world \<Rightarrow> error option \<times> world" where
  "Clipboard_click p this trigger w =
     (if listener (clipboards w this) then Clipboard_onClick p this trigger w else (None, w))"

definition Clipboard_destroy :: "nat \<Rightarrow> world \<Rightarrow> error option \<times> world" where
  "Clipboard_destroy this w =
     (let w1 = updClipboard this (\<lambda>c. c\<lparr>listener := False\<rparr>) w
      in case clipboardAction (clipboards w1 this) of
           None \<Rightarrow> (None, w1)
         | Some a \<Rightarrow>
             andThen (ClipboardAction_destroy a w1)
               (\<lambda>w2. (None, updClipboard this (\<lambda>c. c\<lparr>clipboardAction := None\<rparr>) w2)))"

text \<open>
  The argument of the static \<open>isSupported\<close>: omitted (the default list applies), one
  action name, or a list of names.
\<close>

datatype supported_arg = NoArg | OneAction string | ActionList "string list"

definition requestedActions :: "supported_arg \<Rightarrow> string list" where
  "requestedActions arg =
     (case arg of
        NoArg \<Rightarrow> [''copy'', ''cut'']
      | OneAction a \<Rightarrow> [a]
      | ActionList as \<Rightarrow> as)"

definition isSupported :: "platform \<Rightarrow> supported_arg \<Rightarrow> bool" where
  "isSupported p arg =
     (let actions = requestedActions arg;
          support = (queryCommandSupported p \<noteq> None)
      in fold (\<lambda>action support.
                 support \<and> (case queryCommandSupported p of
                               Some q \<Rightarrow> q action
                             | None \<Rightarrow> False))
           actions support)"

section \<open>An example document\<close>

text \<open>
  A small document used to run the definitions: node 0 is the body, node 1 a trigger
  carrying \<open>data-clipboard-text="hello"\<close>, node 2 a read-only input holding \<open>abc\<close>, node 3
  a disabled input holding \<open>xyz\<close>. The platform runs every command successfully and
  supports only \<open>copy\<close> in its command-support query.
\<close>

definition emptyNode :: node where
  "emptyNode = \<lparr>nodeType = 1, tagName = ''div'', attributes = Map.empty, style = Map.empty,
                 elemValue = [], childNodes = [], clickListeners = []\<rparr>"

definition emptyAction :: clipboard_action where
  "emptyAction = \<lparr>a_container = 0, a_emitter = 0, a_text = None, a_trigger = None,
                   selectedText = [], a_target = JUndefined, fakeElem = None,
                   fakeHandlerCallback = None, fakeHandler = JUndefined, a_action = None\<rparr>"

definition emptyClipboard :: clipboard where
  "emptyClipboard = \<lparr>c_action = DefaultResolver, c_target = DefaultResolver,
                      c_text = DefaultResolver, c_container = 0,
                      clipboardAction = None, listener = False\<rparr>"

definition exampleWorld :: world where
  "exampleWorld =
     \<lparr>nodes = (\<lambda>_. emptyNode)
        (1 := emptyNode\<lparr>tagName := ''button'',
                         attributes := [''data-clipboard-text'' \<mapsto> ''hello'']\<rparr>,
         2 := emptyNode\<lparr>tagName := ''input'', elemValue := ''abc'',
                         attributes := [''readonly'' \<mapsto> []]\<rparr>,
         3 := emptyNode\<lparr>tagName := ''input'', elemValue := ''xyz'',
                         attributes := [''disabled'' \<mapsto> []]\<rparr>),
      nextNode = 4,
      actions = (\<lambda>_. emptyAction), nextAction = 0,
      clipboards = (\<lambda>_. emptyClipboard), nextClipboard = 0,
      selection = None, activeElement = None, commands = [], emitted = []\<rparr>"

definition examplePlatform :: platform where
  "examplePlatform =
     \<lparr>execCommand = (\<lambda>w a. Returned True), documentDir = None, pageYOffset = 0,
      scrollTop = 120, queryCommandSupported = Some (\<lambda>a. a = ''copy''),
      querySelector = (\<lambda>s. NoMatch), body = 0\<rparr>"

definition failingPlatform :: platform where
  "failingPlatform = examplePlatform\<lparr>execCommand := (\<lambda>w a. Thrown)\<rparr>"

section \<open>Notions used to state the properties\<close>

text \<open>
  The validation rule in the words of the specification: a supplied target is rejected
  when it is not an element reference (a DOM node of type 1), when the action is \<open>copy\<close>
  and it carries \<open>disabled\<close>, or when the action is \<open>cut\<close> and it carries \<open>readonly\<close> or
  \<open>disabled\<close>. \<open>targetError\<close> names the error raised for a rejected target. The other
  definitions are closed forms of the worlds the constructor passes through: the new
  executor after \<open>resolveOptions\<close> (\<open>allocated\<close>), the world after the scratch element is
  in place (\<open>withScratch\<close>), after the target is selected (\<open>withSelection\<close>), and the event
  that the command step emits (\<open>eventOf\<close>).
\<close>

definition isElementRef :: "world \<Rightarrow> jsval \<Rightarrow> bool" where
  "isElementRef w v = (case v of JNode n \<Rightarrow> nodeType (nodes w n) = 1 | _ \<Rightarrow> False)"

definition targetRejected :: "world \<Rightarrow> string option \<Rightarrow> jsval \<Rightarrow> bool" where
  "targetRejected w action target =
     (\<not> isElementRef w target \<or>
      (case target of
         JNode n \<Rightarrow>
           (action = Some ''copy'' \<and> hasAttribute w n ''disabled'') \<or>
           (action = Some ''cut'' \<and> (hasAttribute w n ''readonly'' \<or> hasAttribute w n ''disabled''))
       | _ \<Rightarrow> False))"

definition resolvedAction :: "action_options \<Rightarrow> clipboard_action" where
  "resolvedAction options =
     \<lparr>a_container = o_container options, a_emitter = o_emitter options,
      a_text = o_text options, a_trigger = o_trigger options, selectedText = [],
      a_target = o_target options, fakeElem = None, fakeHandlerCallback = None,
      fakeHandler = JUndefined, a_action = o_action options\<rparr>"

definition scratchNode :: "platform \<Rightarrow> string \<Rightarrow> node" where
  "scratchNode p s =
     \<lparr>nodeType = 1, tagName = ''textarea'', attributes = [''readonly'' \<mapsto> []],
      style = [''fontSize'' \<mapsto> ''12pt'', ''border'' \<mapsto> ''0'', ''padding'' \<mapsto> ''0'',
               ''margin'' \<mapsto> ''0'', ''position'' \<mapsto> ''absolute'',
               (if documentDir p = Some ''rtl'' then ''right'' else ''left'') \<mapsto> ''-9999px'',
               ''top'' \<mapsto> show_nat (if pageYOffset p \<noteq> 0 then pageYOffset p else scrollTop p) @ ''px''],
      elemValue = s, childNodes = [], clickListeners = []\<rparr>"

definition eventOf :: "platform \<Rightarrow> nat \<Rightarrow> world \<Rightarrow> nat \<times> string \<times> payload" where
  "eventOf p this w =
     (a_emitter (actions w this),
      if execCommand p w (a_action (actions w this)) = Returned True then ''success'' else ''error'',
      \<lparr>p_action = a_action (actions w this), p_text = selectedText (actions w this),
       p_trigger = a_trigger (actions w this), clearSelection = this\<rparr>)"

definition partialAction :: "action_options \<Rightarrow> clipboard_action" where
  "partialAction options =
     \<lparr>a_container = o_container options, a_emitter = o_emitter options,
      a_text = None, a_trigger = None, selectedText = [],
      a_target = JUndefined, fakeElem = None, fakeHandlerCallback = None,
      fakeHandler = JUndefined, a_action = o_action options\<rparr>"

definition targetError :: "world \<Rightarrow> string option \<Rightarrow> jsval \<Rightarrow> error" where
  "targetError w action target =
     (if \<not> isElementRef w target then InvalidTargetValue
      else if action = Some ''copy'' then InvalidTargetDisabled
      else InvalidTargetCut)"

definition withScratch :: "platform \<Rightarrow> nat \<Rightarrow> string \<Rightarrow> world \<Rightarrow> world" where
  "withScratch p this s w =
     (let c = a_container (actions w this); e = nextNode w
      in w\<lparr>nextNode := Suc e,
            nodes := (nodes w)
              (e := scratchNode p s,
               c := (nodes w c)
                 \<lparr>clickListeners :=
                    (if RemoveFake this \<in> set (clickListeners (nodes w c))
                     then clickListeners (nodes w c)
                     else clickListeners (nodes w c) @ [RemoveFake this]),
                  childNodes := childNodes (nodes w c) @ [e]\<rparr>),
            selection := Some e,
            actions := (actions w)(this := (actions w this)
               \<lparr>fakeHandlerCallback := Some (RemoveFake this),
                fakeHandler := JBool True, fakeElem := Some e, selectedText := s\<rparr>)\<rparr>)"

definition withSelection :: "nat \<Rightarrow> nat \<Rightarrow> world \<Rightarrow> world" where
  "withSelection this n w =
     w\<lparr>selection := Some n,
       actions := (actions w)(this := (actions w this)
          \<lparr>selectedText := elemValue (nodes w n)\<rparr>)\<rparr>"

definition allocated :: "action_options \<Rightarrow> world \<Rightarrow> world" where
  "allocated options w =
     w\<lparr>actions := (actions w)(nextAction w := resolvedAction options),
       nextAction := Suc (nextAction w)\<rparr>"

definition exampleController :: world where
  "exampleController =
     Clipboard_new examplePlatform
       \<lparr>opt_action = None, opt_target = None, opt_text = None, opt_container = None\<rparr>
       exampleWorld"

definition exampleOptions :: action_options where
  "exampleOptions =
     \<lparr>o_action = Some ''copy'', o_container = 0, o_emitter = 0, o_target = JUndefined,
      o_text = None, o_trigger = Some 1\<rparr>"

definition exampleControllerCustom :: world where
  "exampleControllerCustom =
     Clipboard_new examplePlatform
       \<lparr>opt_action = None, opt_target = Some (\<lambda>trigger. JUndefined), opt_text = None,
        opt_container = None\<rparr>
       exampleWorld"

definition oneAction :: world where
  "oneAction =
     snd (ClipboardAction_new examplePlatform (exampleOptions\<lparr>o_text := Some ''hello''\<rparr>)
            exampleWorld)"

definition twoActions :: world where
  "twoActions =
     snd (ClipboardAction_new examplePlatform (exampleOptions\<lparr>o_text := Some ''world''\<rparr>)
            oneAction)"

text \<open>
  The world after the first text-mode action in which the page itself has emptied the body
  (for example by assigning its \<open>innerHTML\<close>): the executor still holds the scratch
  textarea, node 4, which is no longer a child of its container.
\<close>

definition detachedWorld :: world where
  "detachedWorld = updNode 0 (\<lambda>n. n\<lparr>childNodes := []\<rparr>) oneAction"

section \<open>Reachable worlds and their invariant\<close>

text \<open>
  \<open>removeFake\<close> completes when the executor's scratch element, if it has one, is still a
  child of its container; the next three definitions give the listeners and children of
  the container and the fields of the executor after such a call.
\<close>

definition scratchAttached :: "world \<Rightarrow> nat \<Rightarrow> bool" where
  "scratchAttached w a =
     (case fakeElem (actions w a) of
        None \<Rightarrow> True
      | Some e \<Rightarrow> e \<in> set (childNodes (nodes w (a_container (actions w a)))))"

definition listenersAfterRemove :: "world \<Rightarrow> nat \<Rightarrow> callback list" where
  "listenersAfterRemove w this =
     (let a = actions w this; ls = clickListeners (nodes w (a_container a))
      in if truthy (fakeHandler a)
         then (case fakeHandlerCallback a of None \<Rightarrow> ls | Some f \<Rightarrow> removeAll f ls)
         else ls)"

definition childrenAfterRemove :: "world \<Rightarrow> nat \<Rightarrow> nat list" where
  "childrenAfterRemove w this =
     (let a = actions w this; cs = childNodes (nodes w (a_container a))
      in case fakeElem a of None \<Rightarrow> cs | Some e \<Rightarrow> removeAll e cs)"

definition actionAfterRemove :: "clipboard_action \<Rightarrow> clipboard_action" where
  "actionAfterRemove a =
     (if truthy (fakeHandler a)
      then a\<lparr>fakeHandler := JNull, fakeHandlerCallback := None, fakeElem := None\<rparr>
      else a\<lparr>fakeElem := None\<rparr>)"

text \<open>
  The invariant of the worlds that the operations build: an executor that holds a scratch
  element has it among the children of its (existing) container, with its remove-on-click
  listener registered there; scratch elements of different executors differ; a stored
  callback is the executor's own; an executor whose listener flag is set holds a scratch
  element; listeners and controllers refer to existing executors.
\<close>

definition wfScratch :: "world \<Rightarrow> bool" where
  "wfScratch w =
     (\<forall>a<nextAction w. \<forall>e. fakeElem (actions w a) = Some e \<longrightarrow>
        e < nextNode w \<and> a_container (actions w a) < nextNode w \<and>
        e \<in> set (childNodes (nodes w (a_container (actions w a)))) \<and>
        truthy (fakeHandler (actions w a)) \<and>
        fakeHandlerCallback (actions w a) = Some (RemoveFake a) \<and>
        RemoveFake a \<in> set (clickListeners (nodes w (a_container (actions w a)))))"

definition wfDistinct :: "world \<Rightarrow> bool" where
  "wfDistinct w =
     (\<forall>a<nextAction w. \<forall>b<nextAction w. \<forall>e.
        fakeElem (actions w a) = Some e \<and> fakeElem (actions w b) = Some e \<longrightarrow> a = b)"

definition wfCallback :: "world \<Rightarrow> bool" where
  "wfCallback w =
     (\<forall>a<nextAction w. \<forall>cb. fakeHandlerCallback (actions w a) = Some cb \<longrightarrow> cb = RemoveFake a)"

definition wfListeners :: "world \<Rightarrow> bool" where
  "wfListeners w =
     (\<forall>n a. RemoveFake a \<in> set (clickListeners (nodes w n)) \<longrightarrow> a < nextAction w)"

definition wfHandler :: "world \<Rightarrow> bool" where
  "wfHandler w =
     (\<forall>a<nextAction w. truthy (fakeHandler (actions w a)) \<longrightarrow> fakeElem (actions w a) \<noteq> None)"

definition wfClipboards :: "world \<Rightarrow> bool" where
  "wfClipboards w =
     (\<forall>c<nextClipboard w.
        c_container (clipboards w c) < nextNode w \<and>
        (\<forall>a. clipboardAction (clipboards w c) = Some a \<longrightarrow> a < nextAction w))"

definition wellFormed :: "world \<Rightarrow> bool" where
  "wellFormed w =
     (wfScratch w \<and> wfDistinct w \<and> wfCallback w \<and> wfHandler w \<and> wfListeners w \<and>
      wfClipboards w)"

text \<open>
  A world before the library is used (no executor, no controller, no click listener of the
  library), and the worlds reachable from it by the operations of the two classes and by
  clicks delivered to a container or to a trigger. Containers are existing nodes.
\<close>

definition initial :: "world \<Rightarrow> bool" where
  "initial w =
     (nextAction w = 0 \<and> nextClipboard w = 0 \<and> (\<forall>n. clickListeners (nodes w n) = []))"

inductive reachable :: "platform \<Rightarrow> world \<Rightarrow> bool" for p :: platform where
  start: "initial w \<Longrightarrow> reachable p w"
| new_action:
    "reachable p w \<Longrightarrow> o_container options < nextNode w \<Longrightarrow>
     reachable p (snd (ClipboardAction_new p options w))"
| destroy_action:
    "reachable p w \<Longrightarrow> this < nextAction w \<Longrightarrow>
     reachable p (snd (ClipboardAction_destroy this w))"
| clear_selection:
    "reachable p w \<Longrightarrow> reachable p (ClipboardAction_clearSelection this w)"
| container_click:
    "reachable p w \<Longrightarrow> reachable p (containerClick c w)"
| new_clipboard:
    "reachable p w \<Longrightarrow> body p < nextNode w \<Longrightarrow>
     (\<forall>e. opt_container options = Some e \<longrightarrow> e < nextNode w) \<Longrightarrow>
     reachable p (Clipboard_new p options w)"
| trigger_click:
    "reachable p w \<Longrightarrow> this < nextClipboard w \<Longrightarrow>
     reachable p (snd (Clipboard_click p this trigger w))"
| destroy_clipboard:
    "reachable p w \<Longrightarrow> this < nextClipboard w \<Longrightarrow>
     reachable p (snd (Clipboard_destroy this w))"

text \<open>
  What a teardown may change: children and click listeners can only be removed; the logs,
  the selection, the focus, the allocation counters and every other property of every
  node stay as they were.
\<close>

definition onlyDetached :: "world \<Rightarrow> world \<Rightarrow> bool" where
  "onlyDetached w w' =
     (emitted w' = emitted w \<and> commands w' = commands w \<and> selection w' = selection w \<and>
      activeElement w' = activeElement w \<and> nextNode w' = nextNode w \<and>
      nextAction w' = nextAction w \<and> nextClipboard w' = nextClipboard w \<and>
      (\<forall>n. set (childNodes (nodes w' n)) \<subseteq> set (childNodes (nodes w n)) \<and>
           set (clickListeners (nodes w' n)) \<subseteq> set (clickListeners (nodes w n)) \<and>
           nodeType (nodes w' n) = nodeType (nodes w n) \<and>
           tagName (nodes w' n) = tagName (nodes w n) \<and>
           attributes (nodes w' n) = attributes (nodes w n) \<and>
           style (nodes w' n) = style (nodes w n) \<and>
           elemValue (nodes w' n) = elemValue (nodes w n)))"

text \<open>
  What teardown is to do, in the words of the specification ("removes the container click
  listener (if one was registered) and detaches/frees the scratch element (if one
  exists)"): for an executor that holds a scratch
  element, that element leaves the children of the container, the executor's click
  listener leaves the click listeners of the container, and the executor forgets both;
  for an executor that holds none, nothing changes.
\<close>

definition detachScratch :: "nat \<Rightarrow> world \<Rightarrow> world" where
  "detachScratch this w =
     (case fakeElem (actions w this) of
        None \<Rightarrow> w
      | Some e \<Rightarrow>
          (let c = a_container (actions w this)
           in w\<lparr>nodes := (nodes w)
                   (c := (nodes w c)
                      \<lparr>clickListeners := removeAll (RemoveFake this) (clickListeners (nodes w c)),
                       childNodes := removeAll e (childNodes (nodes w c))\<rparr>),
                 actions := (actions w)
                   (this := (actions w this)
                      \<lparr>fakeHandler := JNull, fakeHandlerCallback := None, fakeElem := None\<rparr>)\<rparr>))"

section \<open>The capability probe\<close>

lemma fold_support:
  "fold (\<lambda>action support. support \<and> (case qs of Some q \<Rightarrow> q action | None \<Rightarrow> False)) as s
   = (s \<and> (\<forall>a\<in>set as. case qs of Some q \<Rightarrow> q a | None \<Rightarrow> False))"
  by (induction as arbitrary: s) auto

text \<open>
  Claim C8. \<open>isSupported\<close> takes one action name or a list of names, the list
  \<open>['copy', 'cut']\<close> when the argument is omitted. It reads the platform only (its model
  has no world to change). It returns false when the platform has no
  \<open>queryCommandSupported\<close>, and otherwise true exactly when the query reports every
  requested action as supported.
\<close>

theorem isSupported_iff:
  "requestedActions NoArg = [''copy'', ''cut''] \<and>
   requestedActions (OneAction a) = [a] \<and>
   requestedActions (ActionList as) = as \<and>
   isSupported p arg =
     (case queryCommandSupported p of
        None \<Rightarrow> False
      | Some q \<Rightarrow> (\<forall>x\<in>set (requestedActions arg). q x))"
proof -
  have "isSupported p arg =
          (queryCommandSupported p \<noteq> None \<and>
           (\<forall>x\<in>set (requestedActions arg).
              case queryCommandSupported p of Some q \<Rightarrow> q x | None \<Rightarrow> False))"
    unfolding isSupported_def Let_def by (rule fold_support)
  then have "isSupported p arg =
          (case queryCommandSupported p of
             None \<Rightarrow> False
           | Some q \<Rightarrow> (\<forall>x\<in>set (requestedActions arg). q x))"
    by (cases "queryCommandSupported p") simp_all
  then show ?thesis
    by (simp add: requestedActions_def)
qed

theorem isSupported_iff_witness:
  "isSupported examplePlatform (OneAction ''copy'') \<and>
   \<not> isSupported examplePlatform NoArg \<and>
   \<not> isSupported (examplePlatform\<lparr>queryCommandSupported := None\<rparr>) (ActionList [])"
  using isSupported_iff [of "''copy''" "[]" examplePlatform "OneAction ''copy''"]
        isSupported_iff [of "''copy''" "[]" examplePlatform NoArg]
        isSupported_iff [of "''copy''" "[]" "examplePlatform\<lparr>queryCommandSupported := None\<rparr>"
                            "ActionList []"]
  by (simp add: examplePlatform_def requestedActions_def)

section \<open>The executor\<close>

lemmas upd_defs = updNode_def updAction_def updClipboard_def

lemma set_target_cases:
  "set_target this t w =
     (if t = JUndefined then (None, w)
      else if \<not> isElementRef w t then (Some InvalidTargetValue, w)
      else if a_action (actions w this) = Some ''copy'' \<and> targetRejected w (Some ''copy'') t
        then (Some InvalidTargetDisabled, w)
      else if a_action (actions w this) = Some ''cut'' \<and> targetRejected w (Some ''cut'') t
        then (Some InvalidTargetCut, w)
      else (None, updAction this (\<lambda>a. a\<lparr>a_target := t\<rparr>) w))"
  by (cases t) (auto simp add: set_target_def nodeTypeOf_def isElementRef_def targetRejected_def)

lemma copyText_eq:
  "copyText p this w =
     (None, w\<lparr>commands := commands w @ [a_action (actions w this)],
              emitted := emitted w @ [eventOf p this w]\<rparr>)"
proof (cases "execCommand p w (a_action (actions w this))")
  case (Returned b)
  then show ?thesis
    by (cases b) (simp_all add: copyText_def handleResult_def eventOf_def)
next
  case Thrown
  then show ?thesis
    by (simp add: copyText_def handleResult_def eventOf_def)
qed

lemma removeFake_fresh:
  "\<not> truthy (fakeHandler (actions w this)) \<Longrightarrow> fakeElem (actions w this) = None \<Longrightarrow>
   removeFake this w = (None, w)"
  by (simp add: removeFake_def)

lemma targetRejected_upd [simp]:
  "targetRejected (actions_update f w) a t = targetRejected w a t"
  "targetRejected (nextAction_update g w) a t = targetRejected w a t"
  "isElementRef (actions_update f w) t = isElementRef w t"
  "isElementRef (nextAction_update g w) t = isElementRef w t"
  by (simp_all add: targetRejected_def isElementRef_def hasAttribute_def split: jsval.splits)

lemma not_element_rejected: "\<not> isElementRef w t \<Longrightarrow> targetRejected w a t"
  by (simp add: targetRejected_def)

lemma other_action_rejected:
  "a \<noteq> Some ''copy'' \<Longrightarrow> a \<noteq> Some ''cut'' \<Longrightarrow> targetRejected w a t = (\<not> isElementRef w t)"
  by (cases t) (simp_all add: targetRejected_def)

lemma resolveOptions_ok:
  assumes "o_target options = JUndefined \<or> \<not> targetRejected w (o_action options) (o_target options)"
  shows "ClipboardAction_resolveOptions (nextAction w) options (newAction w) =
           (None, w\<lparr>actions := (actions w)(nextAction w := resolvedAction options),
                    nextAction := Suc (nextAction w)\<rparr>)"
proof (cases "o_target options = JUndefined")
  case True
  then show ?thesis
    by (simp add: ClipboardAction_resolveOptions_def set_target_cases newAction_def
          andThen_def updAction_def resolvedAction_def Let_def)
next
  case False
  with assms have ok: "\<not> targetRejected w (o_action options) (o_target options)" by simp
  then have el: "isElementRef w (o_target options)"
    using not_element_rejected by blast
  show ?thesis
    using False ok el
    by (auto simp add: ClipboardAction_resolveOptions_def set_target_cases newAction_def
          andThen_def updAction_def resolvedAction_def Let_def)
qed



lemma resolveOptions_throws:
  assumes "o_target options \<noteq> JUndefined" "targetRejected w (o_action options) (o_target options)"
  shows "ClipboardAction_resolveOptions (nextAction w) options (newAction w) =
           (Some (targetError w (o_action options) (o_target options)),
            w\<lparr>actions := (actions w)(nextAction w := partialAction options),
              nextAction := Suc (nextAction w)\<rparr>)"
proof (cases "isElementRef w (o_target options)")
  case False
  then show ?thesis using assms
    by (simp add: ClipboardAction_resolveOptions_def set_target_cases newAction_def
          andThen_def updAction_def Let_def targetError_def partialAction_def)
next
  case True
  with assms(2) have "o_action options = Some ''copy'' \<or> o_action options = Some ''cut''"
    using other_action_rejected by blast
  then show ?thesis using assms True
    by (auto simp add: ClipboardAction_resolveOptions_def set_target_cases newAction_def
          andThen_def updAction_def Let_def targetError_def partialAction_def)
qed

lemma selectFake_fresh:
  assumes "\<not> truthy (fakeHandler (actions w this))" "fakeElem (actions w this) = None"
      and "a_container (actions w this) \<noteq> nextNode w"
      and "a_text (actions w this) = Some s"
  shows "selectFake p this w = copyText p this (withScratch p this s w)"
proof -
  have rf: "removeFake this w = (None, w)"
    using assms(1,2) by (rule removeFake_fresh)
  show ?thesis
    apply (simp only: selectFake_def rf andThen_def Let_def prod.case option.case
             createElement_def select_elem_def)
    apply (rule arg_cong [where f = "copyText p this"])
    using assms(3,4)
    apply (simp add: withScratch_def scratchNode_def Let_def fun_eq_iff
             addEventListener_def appendChild_def upd_defs split del: if_split cong: if_cong)
    done
qed

lemma selectTarget_eq:
  assumes "a_target (actions w this) = JNode n"
  shows "selectTarget p this w = copyText p this (withSelection this n w)"
  using assms
  by (simp add: selectTarget_def Let_def select_elem_def upd_defs withSelection_def)


lemma selectFake_fresh_copy:
  assumes "\<not> truthy (fakeHandler (actions w this))" "fakeElem (actions w this) = None"
  shows "\<exists>w1. selectFake p this w = copyText p this w1 \<and>
              commands w1 = commands w \<and> emitted w1 = emitted w \<and>
              a_emitter (actions w1 this) = a_emitter (actions w this) \<and>
              a_action (actions w1 this) = a_action (actions w this) \<and>
              a_trigger (actions w1 this) = a_trigger (actions w this)"
proof -
  have rf: "removeFake this w = (None, w)"
    using assms(1,2) by (rule removeFake_fresh)
  show ?thesis
    apply (simp only: selectFake_def rf andThen_def Let_def prod.case option.case
             createElement_def select_elem_def)
    apply (rule exI, rule conjI, rule refl)
    apply (simp add: addEventListener_def appendChild_def upd_defs split del: if_split cong: if_cong)
    done
qed

lemma isElementRef_JNode: "isElementRef w t \<Longrightarrow> \<exists>n. t = JNode n"
  by (cases t) (simp_all add: isElementRef_def)

lemma new_cases:
  "ClipboardAction_new p options w =
    (if o_target options \<noteq> JUndefined \<and> targetRejected w (o_action options) (o_target options)
     then (Some (targetError w (o_action options) (o_target options)),
           w\<lparr>actions := (actions w)(nextAction w := partialAction options),
             nextAction := Suc (nextAction w)\<rparr>)
     else if truthyStr (o_text options)
       then selectFake p (nextAction w) (allocated options w)
     else (case o_target options of
             JNode n \<Rightarrow> copyText p (nextAction w)
                          (withSelection (nextAction w) n (allocated options w))
           | _ \<Rightarrow> (None, allocated options w)))"
proof (cases "o_target options \<noteq> JUndefined \<and> targetRejected w (o_action options) (o_target options)")
  case True
  then show ?thesis
    by (simp add: ClipboardAction_new_def resolveOptions_throws andThen_def Let_def)
next
  case False
  then have ok: "o_target options = JUndefined \<or>
                 \<not> targetRejected w (o_action options) (o_target options)" by blast
  have ro: "ClipboardAction_resolveOptions (nextAction w) options (newAction w) =
              (None, allocated options w)"
    unfolding allocated_def using ok by (rule resolveOptions_ok)
  have act: "actions (allocated options w) (nextAction w) = resolvedAction options"
    by (simp add: allocated_def)
  show ?thesis
  proof (cases "o_target options = JUndefined")
    case True
    then show ?thesis
      by (simp add: ClipboardAction_new_def ro andThen_def initSelection_def act resolvedAction_def Let_def)
  next
    case nu: False
    with ok have "\<not> targetRejected w (o_action options) (o_target options)" by simp
    then have "isElementRef w (o_target options)"
      using not_element_rejected by blast
    then obtain n where n: "o_target options = JNode n"
      using isElementRef_JNode by blast
    have "a_target (actions (allocated options w) (nextAction w)) = JNode n"
      by (simp add: act resolvedAction_def n)
    then have st: "selectTarget p (nextAction w) (allocated options w) =
                     copyText p (nextAction w) (withSelection (nextAction w) n (allocated options w))"
      by (rule selectTarget_eq)
    show ?thesis using False
      by (simp add: ClipboardAction_new_def ro andThen_def initSelection_def act
            resolvedAction_def n st Let_def)
  qed
qed


lemma allocated_simps [simp]:
  "nodes (allocated options w) = nodes w"
  "nextNode (allocated options w) = nextNode w"
  "nextAction (allocated options w) = Suc (nextAction w)"
  "clipboards (allocated options w) = clipboards w"
  "nextClipboard (allocated options w) = nextClipboard w"
  "selection (allocated options w) = selection w"
  "activeElement (allocated options w) = activeElement w"
  "commands (allocated options w) = commands w"
  "emitted (allocated options w) = emitted w"
  "actions (allocated options w) a =
     (if a = nextAction w then resolvedAction options else actions w a)"
  by (simp_all add: allocated_def)

lemma new_text:
  assumes "o_target options = JUndefined \<or>
           \<not> targetRejected w (o_action options) (o_target options)"
      and "o_text options = Some s" "s \<noteq> []" "o_container options \<noteq> nextNode w"
  shows "ClipboardAction_new p options w =
           copyText p (nextAction w) (withScratch p (nextAction w) s (allocated options w))"
proof -
  have "selectFake p (nextAction w) (allocated options w) =
          copyText p (nextAction w) (withScratch p (nextAction w) s (allocated options w))"
    by (rule selectFake_fresh) (simp_all add: resolvedAction_def assms)
  then show ?thesis
    using assms by (auto simp add: new_cases truthyStr_def)
qed

lemma new_fst:
  "fst (ClipboardAction_new p options w) =
     (if o_target options \<noteq> JUndefined \<and> targetRejected w (o_action options) (o_target options)
      then Some (targetError w (o_action options) (o_target options)) else None)"
proof -
  have "\<exists>w1. selectFake p (nextAction w) (allocated options w) = copyText p (nextAction w) w1"
    using selectFake_fresh_copy [of "allocated options w" "nextAction w" p]
    by (auto simp add: resolvedAction_def)
  then have "fst (selectFake p (nextAction w) (allocated options w)) = None"
    by (auto simp add: copyText_eq)
  then show ?thesis
    by (simp add: new_cases copyText_eq split: jsval.splits)
qed

lemma new_rejected_world:
  assumes "o_target options \<noteq> JUndefined" "targetRejected w (o_action options) (o_target options)"
  shows "snd (ClipboardAction_new p options w) =
           w\<lparr>actions := (actions w)(nextAction w := partialAction options),
             nextAction := Suc (nextAction w)\<rparr>"
  using assms by (simp add: new_cases)

text \<open>
  Claim C3. When a target is supplied (it is not \<open>undefined\<close>), the constructor throws
  exactly when the target is rejected by the validation rule: it is not an element
  reference, or the action is \<open>copy\<close> and it carries \<open>disabled\<close>, or the action is \<open>cut\<close>
  and it carries \<open>readonly\<close> or \<open>disabled\<close>. The error is one of the three configuration
  errors, and it is raised before any selection, command, event or DOM change. For every
  other supplied target the construction completes.
\<close>

theorem target_validation:
  assumes "o_target options \<noteq> JUndefined"
  shows "(fst (ClipboardAction_new p options w) \<noteq> None) =
           targetRejected w (o_action options) (o_target options) \<and>
         (targetRejected w (o_action options) (o_target options) \<longrightarrow>
            fst (ClipboardAction_new p options w) \<in>
              {Some InvalidTargetValue, Some InvalidTargetDisabled, Some InvalidTargetCut} \<and>
            selection (snd (ClipboardAction_new p options w)) = selection w \<and>
            commands (snd (ClipboardAction_new p options w)) = commands w \<and>
            emitted (snd (ClipboardAction_new p options w)) = emitted w \<and>
            nodes (snd (ClipboardAction_new p options w)) = nodes w \<and>
            nextNode (snd (ClipboardAction_new p options w)) = nextNode w)"
  using assms by (simp add: new_fst new_rejected_world targetError_def)

theorem target_validation_witness:
  "JNode 2 \<noteq> JUndefined \<and>
   targetRejected exampleWorld (Some ''cut'') (JNode 2) \<and>
   fst (ClipboardAction_new examplePlatform
          (exampleOptions\<lparr>o_action := Some ''cut'', o_target := JNode 2\<rparr>) exampleWorld) \<noteq> None \<and>
   \<not> targetRejected exampleWorld (Some ''copy'') (JNode 2) \<and>
   fst (ClipboardAction_new examplePlatform
          (exampleOptions\<lparr>o_target := JNode 2\<rparr>) exampleWorld) = None"
  using target_validation [of "exampleOptions\<lparr>o_action := Some ''cut'', o_target := JNode 2\<rparr>"
          examplePlatform exampleWorld]
        target_validation [of "exampleOptions\<lparr>o_target := JNode 2\<rparr>" examplePlatform exampleWorld]
  by (simp add: exampleOptions_def exampleWorld_def targetRejected_def isElementRef_def
        hasAttribute_def emptyNode_def)


text \<open>
  Claim C10. When a non-empty text and an element target are both supplied, the target is
  still validated: a \<open>disabled\<close> target under \<open>copy\<close>, or a \<open>readonly\<close> or \<open>disabled\<close> target
  under \<open>cut\<close>, makes the constructor throw, and nothing is selected, created, run or
  emitted, although the text would have driven the selection.
\<close>

theorem text_does_not_bypass_validation:
  assumes "o_text options = Some s" "s \<noteq> []"
      and "o_target options = JNode n" "nodeType (nodes w n) = 1"
      and "(o_action options = Some ''copy'' \<and> hasAttribute w n ''disabled'') \<or>
           (o_action options = Some ''cut'' \<and>
              (hasAttribute w n ''readonly'' \<or> hasAttribute w n ''disabled''))"
  shows "fst (ClipboardAction_new p options w) =
           Some (if o_action options = Some ''copy'' then InvalidTargetDisabled
                 else InvalidTargetCut) \<and>
         selection (snd (ClipboardAction_new p options w)) = selection w \<and>
         commands (snd (ClipboardAction_new p options w)) = commands w \<and>
         emitted (snd (ClipboardAction_new p options w)) = emitted w \<and>
         nodes (snd (ClipboardAction_new p options w)) = nodes w \<and>
         nextNode (snd (ClipboardAction_new p options w)) = nextNode w"
proof -
  have el: "isElementRef w (o_target options)"
    using assms(3,4) by (simp add: isElementRef_def)
  have rej: "targetRejected w (o_action options) (o_target options)"
    using assms(3,5) by (auto simp add: targetRejected_def)
  have nu: "o_target options \<noteq> JUndefined"
    using assms(3) by simp
  have "targetError w (o_action options) (o_target options) =
          (if o_action options = Some ''copy'' then InvalidTargetDisabled else InvalidTargetCut)"
    using el by (simp add: targetError_def)
  then show ?thesis
    using rej nu by (simp add: new_fst new_rejected_world)
qed

theorem text_does_not_bypass_validation_witness:
  "fst (ClipboardAction_new examplePlatform
          (exampleOptions\<lparr>o_text := Some ''hello'', o_target := JNode 3\<rparr>) exampleWorld)
     = Some InvalidTargetDisabled \<and>
   fst (ClipboardAction_new examplePlatform
          (exampleOptions\<lparr>o_action := Some ''cut'', o_text := Some ''hello'',
                           o_target := JNode 2\<rparr>) exampleWorld)
     = Some InvalidTargetCut \<and>
   emitted (snd (ClipboardAction_new examplePlatform
          (exampleOptions\<lparr>o_text := Some ''hello'', o_target := JNode 3\<rparr>) exampleWorld)) = []"
  using text_does_not_bypass_validation
          [of "exampleOptions\<lparr>o_text := Some ''hello'', o_target := JNode 3\<rparr>"
              "''hello''" 3 exampleWorld examplePlatform]
        text_does_not_bypass_validation
          [of "exampleOptions\<lparr>o_action := Some ''cut'', o_text := Some ''hello'',
                               o_target := JNode 2\<rparr>"
              "''hello''" 2 exampleWorld examplePlatform]
  by (simp add: exampleOptions_def exampleWorld_def hasAttribute_def emptyNode_def)

text \<open>
  Claim C2, as amended. When the target is not supplied (\<open>undefined\<close>) and the text is
  absent or empty, the construction completes without error, selects nothing, does not
  invoke the copy/cut command and emits no event.
\<close>

theorem no_source_no_command:
  assumes "o_target options = JUndefined" "\<not> truthyStr (o_text options)"
  shows "ClipboardAction_new p options w = (None, allocated options w) \<and>
         fst (ClipboardAction_new p options w) = None \<and>
         selection (snd (ClipboardAction_new p options w)) = selection w \<and>
         commands (snd (ClipboardAction_new p options w)) = commands w \<and>
         emitted (snd (ClipboardAction_new p options w)) = emitted w \<and>
         nodes (snd (ClipboardAction_new p options w)) = nodes w \<and>
         nextNode (snd (ClipboardAction_new p options w)) = nextNode w"
  using assms by (simp add: new_cases)

theorem no_source_no_command_witness:
  "o_target exampleOptions = JUndefined \<and> \<not> truthyStr (o_text exampleOptions) \<and>
   fst (ClipboardAction_new failingPlatform exampleOptions exampleWorld) = None \<and>
   commands (snd (ClipboardAction_new failingPlatform exampleOptions exampleWorld)) = [] \<and>
   emitted (snd (ClipboardAction_new failingPlatform exampleOptions exampleWorld)) = []"
  using no_source_no_command [of exampleOptions failingPlatform exampleWorld]
  by (simp add: exampleOptions_def exampleWorld_def truthyStr_def)

text \<open>
  Claim C2 as stated fails: with neither target nor text, on a platform whose command
  would succeed, the construction completes but the command log and the event log stay
  empty.
\<close>

theorem no_source_counterexample:
  "fst (ClipboardAction_new examplePlatform exampleOptions exampleWorld) = None \<and>
   commands (snd (ClipboardAction_new examplePlatform exampleOptions exampleWorld)) = [] \<and>
   emitted (snd (ClipboardAction_new examplePlatform exampleOptions exampleWorld)) = []"
  by (simp add: new_cases exampleOptions_def exampleWorld_def truthyStr_def)


lemma withScratch_simps:
  "nextNode (withScratch p this s w) = Suc (nextNode w)"
  "selection (withScratch p this s w) = Some (nextNode w)"
  "commands (withScratch p this s w) = commands w"
  "emitted (withScratch p this s w) = emitted w"
  "nextAction (withScratch p this s w) = nextAction w"
  "clipboards (withScratch p this s w) = clipboards w"
  "nextClipboard (withScratch p this s w) = nextClipboard w"
  "actions (withScratch p this s w) a =
     (if a = this
      then (actions w this)\<lparr>fakeHandlerCallback := Some (RemoveFake this),
             fakeHandler := JBool True, fakeElem := Some (nextNode w), selectedText := s\<rparr>
      else actions w a)"
  by (simp_all add: withScratch_def Let_def)

lemma withScratch_nodes:
  "a_container (actions w this) \<noteq> nextNode w \<Longrightarrow>
   nodes (withScratch p this s w) n =
     (if n = a_container (actions w this)
      then (nodes w n)\<lparr>clickListeners :=
              (if RemoveFake this \<in> set (clickListeners (nodes w n))
               then clickListeners (nodes w n)
               else clickListeners (nodes w n) @ [RemoveFake this]),
             childNodes := childNodes (nodes w n) @ [nextNode w]\<rparr>
      else if n = nextNode w then scratchNode p s
      else nodes w n)"
  by (simp add: withScratch_def Let_def)

lemma copyText_simps:
  "fst (copyText p this w) = None"
  "nodes (snd (copyText p this w)) = nodes w"
  "nextNode (snd (copyText p this w)) = nextNode w"
  "actions (snd (copyText p this w)) = actions w"
  "nextAction (snd (copyText p this w)) = nextAction w"
  "clipboards (snd (copyText p this w)) = clipboards w"
  "nextClipboard (snd (copyText p this w)) = nextClipboard w"
  "selection (snd (copyText p this w)) = selection w"
  "commands (snd (copyText p this w)) = commands w @ [a_action (actions w this)]"
  "emitted (snd (copyText p this w)) = emitted w @ [eventOf p this w]"
  by (simp_all add: copyText_eq)

text \<open>
  Claim C4. For a construction that passes validation: when the text is a non-empty
  string (and the container is an existing node), a new \<open>textarea\<close> holding exactly the
  text is created, appended to the container, selected, and recorded as the executor's
  scratch element; when the text is absent or empty and the target is an element, the
  target itself is selected, its content is the selected text, and no element is created
  or appended.
\<close>

theorem selection_strategy:
  assumes "o_target options = JUndefined \<or>
           \<not> targetRejected w (o_action options) (o_target options)"
  shows "(\<forall>s. o_text options = Some s \<and> s \<noteq> [] \<and> o_container options \<noteq> nextNode w \<longrightarrow>
            fst (ClipboardAction_new p options w) = None \<and>
            fakeElem (actions (snd (ClipboardAction_new p options w)) (nextAction w))
              = Some (nextNode w) \<and>
            tagName (nodes (snd (ClipboardAction_new p options w)) (nextNode w)) = ''textarea'' \<and>
            elemValue (nodes (snd (ClipboardAction_new p options w)) (nextNode w)) = s \<and>
            childNodes (nodes (snd (ClipboardAction_new p options w)) (o_container options))
              = childNodes (nodes w (o_container options)) @ [nextNode w] \<and>
            selection (snd (ClipboardAction_new p options w)) = Some (nextNode w) \<and>
            selectedText (actions (snd (ClipboardAction_new p options w)) (nextAction w)) = s) \<and>
         (\<forall>n. \<not> truthyStr (o_text options) \<and> o_target options = JNode n \<longrightarrow>
            fst (ClipboardAction_new p options w) = None \<and>
            selection (snd (ClipboardAction_new p options w)) = Some n \<and>
            selectedText (actions (snd (ClipboardAction_new p options w)) (nextAction w))
              = elemValue (nodes w n) \<and>
            fakeElem (actions (snd (ClipboardAction_new p options w)) (nextAction w)) = None \<and>
            nodes (snd (ClipboardAction_new p options w)) = nodes w \<and>
            nextNode (snd (ClipboardAction_new p options w)) = nextNode w)"
proof (intro conjI allI impI)
  fix s
  assume h: "o_text options = Some s \<and> s \<noteq> [] \<and> o_container options \<noteq> nextNode w"
  then have eq: "ClipboardAction_new p options w =
           copyText p (nextAction w) (withScratch p (nextAction w) s (allocated options w))"
    using assms new_text by blast
  have c: "a_container (actions (allocated options w) (nextAction w)) \<noteq>
             nextNode (allocated options w)"
    using h by (simp add: resolvedAction_def)
  show "fst (ClipboardAction_new p options w) = None"
    by (simp add: eq copyText_simps)
  show "fakeElem (actions (snd (ClipboardAction_new p options w)) (nextAction w))
          = Some (nextNode w)"
    by (simp add: eq copyText_simps withScratch_simps)
  show "tagName (nodes (snd (ClipboardAction_new p options w)) (nextNode w)) = ''textarea''"
    using h by (simp add: eq copyText_simps withScratch_nodes [OF c] resolvedAction_def
                  scratchNode_def)
  show "elemValue (nodes (snd (ClipboardAction_new p options w)) (nextNode w)) = s"
    using h by (simp add: eq copyText_simps withScratch_nodes [OF c] resolvedAction_def
                  scratchNode_def)
  show "childNodes (nodes (snd (ClipboardAction_new p options w)) (o_container options))
          = childNodes (nodes w (o_container options)) @ [nextNode w]"
    using h by (simp add: eq copyText_simps withScratch_nodes [OF c] resolvedAction_def)
  show "selection (snd (ClipboardAction_new p options w)) = Some (nextNode w)"
    by (simp add: eq copyText_simps withScratch_simps)
  show "selectedText (actions (snd (ClipboardAction_new p options w)) (nextAction w)) = s"
    by (simp add: eq copyText_simps withScratch_simps)
next
  fix n
  assume h: "\<not> truthyStr (o_text options) \<and> o_target options = JNode n"
  then have eq: "ClipboardAction_new p options w =
           copyText p (nextAction w) (withSelection (nextAction w) n (allocated options w))"
    using assms by (simp add: new_cases)
  show "fst (ClipboardAction_new p options w) = None"
    by (simp add: eq copyText_simps)
  show "selection (snd (ClipboardAction_new p options w)) = Some n"
    by (simp add: eq copyText_simps withSelection_def)
  show "selectedText (actions (snd (ClipboardAction_new p options w)) (nextAction w))
          = elemValue (nodes w n)"
    by (simp add: eq copyText_simps withSelection_def)
  show "fakeElem (actions (snd (ClipboardAction_new p options w)) (nextAction w)) = None"
    by (simp add: eq copyText_simps withSelection_def resolvedAction_def)
  show "nodes (snd (ClipboardAction_new p options w)) = nodes w"
    by (simp add: eq copyText_simps withSelection_def)
  show "nextNode (snd (ClipboardAction_new p options w)) = nextNode w"
    by (simp add: eq copyText_simps withSelection_def)
qed


theorem selection_strategy_witness:
  "fakeElem (actions (snd (ClipboardAction_new examplePlatform
      (exampleOptions\<lparr>o_text := Some ''hello''\<rparr>) exampleWorld)) 0) = Some 4 \<and>
   elemValue (nodes (snd (ClipboardAction_new examplePlatform
      (exampleOptions\<lparr>o_text := Some ''hello''\<rparr>) exampleWorld)) 4) = ''hello'' \<and>
   childNodes (nodes (snd (ClipboardAction_new examplePlatform
      (exampleOptions\<lparr>o_text := Some ''hello''\<rparr>) exampleWorld)) 0) = [4] \<and>
   selection (snd (ClipboardAction_new examplePlatform
      (exampleOptions\<lparr>o_target := JNode 2\<rparr>) exampleWorld)) = Some 2 \<and>
   selectedText (actions (snd (ClipboardAction_new examplePlatform
      (exampleOptions\<lparr>o_target := JNode 2\<rparr>) exampleWorld)) 0) = ''abc'' \<and>
   nextNode (snd (ClipboardAction_new examplePlatform
      (exampleOptions\<lparr>o_target := JNode 2\<rparr>) exampleWorld)) = 4"
  using selection_strategy [of "exampleOptions\<lparr>o_text := Some ''hello''\<rparr>"
          exampleWorld examplePlatform]
        selection_strategy [of "exampleOptions\<lparr>o_target := JNode 2\<rparr>"
          exampleWorld examplePlatform]
  by (simp add: exampleOptions_def exampleWorld_def targetRejected_def isElementRef_def
        hasAttribute_def emptyNode_def truthyStr_def)


lemma new_events:
  "(commands (snd (ClipboardAction_new p options w)) = commands w \<and>
    emitted (snd (ClipboardAction_new p options w)) = emitted w) \<or>
   (\<exists>w1. ClipboardAction_new p options w = copyText p (nextAction w) w1 \<and>
          commands w1 = commands w \<and> emitted w1 = emitted w \<and>
          a_emitter (actions w1 (nextAction w)) = o_emitter options \<and>
          a_action (actions w1 (nextAction w)) = o_action options \<and>
          a_trigger (actions w1 (nextAction w)) = o_trigger options)"
proof (cases "o_target options \<noteq> JUndefined \<and>
              targetRejected w (o_action options) (o_target options)")
  case True
  then show ?thesis by (simp add: new_rejected_world)
next
  case ok: False
  show ?thesis
  proof (cases "truthyStr (o_text options)")
    case True
    obtain w1 where w1: "selectFake p (nextAction w) (allocated options w) =
                           copyText p (nextAction w) w1"
        "commands w1 = commands w" "emitted w1 = emitted w"
        "a_emitter (actions w1 (nextAction w)) = o_emitter options"
        "a_action (actions w1 (nextAction w)) = o_action options"
        "a_trigger (actions w1 (nextAction w)) = o_trigger options"
      using selectFake_fresh_copy [of "allocated options w" "nextAction w" p]
      by (auto simp add: resolvedAction_def)
    have "ClipboardAction_new p options w = copyText p (nextAction w) w1"
      using ok True w1(1) by (auto simp add: new_cases)
    then show ?thesis using w1 by blast
  next
    case False
    show ?thesis
    proof (cases "o_target options")
      case (JNode n)
      have "ClipboardAction_new p options w =
              copyText p (nextAction w) (withSelection (nextAction w) n (allocated options w))"
        using ok False JNode by (auto simp add: new_cases)
      moreover have "commands (withSelection (nextAction w) n (allocated options w)) = commands w"
        "emitted (withSelection (nextAction w) n (allocated options w)) = emitted w"
        "a_emitter (actions (withSelection (nextAction w) n (allocated options w)) (nextAction w))
           = o_emitter options"
        "a_action (actions (withSelection (nextAction w) n (allocated options w)) (nextAction w))
           = o_action options"
        "a_trigger (actions (withSelection (nextAction w) n (allocated options w)) (nextAction w))
           = o_trigger options"
        by (simp_all add: withSelection_def resolvedAction_def)
      ultimately show ?thesis by blast
    qed (use ok False in \<open>auto simp add: new_cases\<close>)
  qed
qed

text \<open>
  Claim C5. When the platform command throws or returns false, the command step does not
  throw and emits the \<open>error\<close> event. The constructor throws only for a rejected target,
  before the command has run; and on a platform whose command never returns true, every
  event a construction emits is an \<open>error\<close> event.
\<close>

theorem command_failure_reported:
  "(execCommand p w (a_action (actions w this)) \<noteq> Returned True \<longrightarrow>
      fst (copyText p this w) = None \<and>
      emitted (snd (copyText p this w)) =
        emitted w @
          [(a_emitter (actions w this), ''error'',
            \<lparr>p_action = a_action (actions w this), p_text = selectedText (actions w this),
             p_trigger = a_trigger (actions w this), clearSelection = this\<rparr>)]) \<and>
   (fst (ClipboardAction_new p options w) = None \<or>
    fst (ClipboardAction_new p options w) =
      Some (targetError w (o_action options) (o_target options)) \<and>
    o_target options \<noteq> JUndefined \<and>
    targetRejected w (o_action options) (o_target options) \<and>
    commands (snd (ClipboardAction_new p options w)) = commands w) \<and>
   ((\<forall>w' a. execCommand p w' a \<noteq> Returned True) \<longrightarrow>
      (\<forall>ev \<in> set (drop (length (emitted w)) (emitted (snd (ClipboardAction_new p options w)))).
         fst (snd ev) = ''error''))"
proof (intro conjI impI)
  assume "\<forall>w' a. execCommand p w' a \<noteq> Returned True"
  then show "\<forall>ev \<in> set (drop (length (emitted w))
                 (emitted (snd (ClipboardAction_new p options w)))). fst (snd ev) = ''error''"
    using new_events [of p options w]
    by (auto simp add: copyText_simps eventOf_def)
qed (simp_all add: copyText_simps eventOf_def new_fst new_rejected_world)

lemma example_text_run:
  "ClipboardAction_new p (exampleOptions\<lparr>o_text := Some ''hello''\<rparr>) exampleWorld =
     copyText p 0 (withScratch p 0 ''hello''
       (allocated (exampleOptions\<lparr>o_text := Some ''hello''\<rparr>) exampleWorld))"
  using new_text [of "exampleOptions\<lparr>o_text := Some ''hello''\<rparr>" exampleWorld "''hello''" p]
  by (simp add: exampleOptions_def exampleWorld_def)

theorem command_failure_reported_witness:
  "execCommand failingPlatform exampleWorld (a_action (actions exampleWorld 0)) = Thrown \<and>
   fst (copyText failingPlatform 0 exampleWorld) = None \<and>
   emitted (snd (copyText failingPlatform 0 exampleWorld)) =
     [(0, ''error'', \<lparr>p_action = None, p_text = [], p_trigger = None, clearSelection = 0\<rparr>)] \<and>
   fst (ClipboardAction_new failingPlatform (exampleOptions\<lparr>o_text := Some ''hello''\<rparr>)
          exampleWorld) = None \<and>
   emitted (snd (ClipboardAction_new failingPlatform (exampleOptions\<lparr>o_text := Some ''hello''\<rparr>)
          exampleWorld)) =
     [(0, ''error'', \<lparr>p_action = Some ''copy'', p_text = ''hello'', p_trigger = Some 1,
                       clearSelection = 0\<rparr>)]"
  using command_failure_reported [of failingPlatform exampleWorld 0
          "exampleOptions\<lparr>o_text := Some ''hello''\<rparr>"]
  by (simp add: example_text_run copyText_simps withScratch_simps eventOf_def,
      simp add: failingPlatform_def examplePlatform_def exampleWorld_def emptyAction_def
        exampleOptions_def resolvedAction_def)

text \<open>
  Claim C6. The command step logs one command and emits exactly one event: \<open>success\<close> when
  the command returned true, \<open>error\<close> otherwise, with the payload made of the action, the
  selected text, the trigger and the bound \<open>clearSelection\<close>. A construction either runs
  no command and emits nothing, or runs the command once and emits that one event.
\<close>

theorem command_step_emits_one_event:
  "copyText p this w =
     (None,
      w\<lparr>commands := commands w @ [a_action (actions w this)],
        emitted := emitted w @
          [(a_emitter (actions w this),
            if execCommand p w (a_action (actions w this)) = Returned True
            then ''success'' else ''error'',
            \<lparr>p_action = a_action (actions w this), p_text = selectedText (actions w this),
             p_trigger = a_trigger (actions w this), clearSelection = this\<rparr>)]\<rparr>) \<and>
   ((commands (snd (ClipboardAction_new p options w)) = commands w \<and>
     emitted (snd (ClipboardAction_new p options w)) = emitted w) \<or>
    (\<exists>name. (name = ''success'' \<or> name = ''error'') \<and>
       commands (snd (ClipboardAction_new p options w)) = commands w @ [o_action options] \<and>
       emitted (snd (ClipboardAction_new p options w)) =
         emitted w @
           [(o_emitter options, name,
             \<lparr>p_action = o_action options,
              p_text = selectedText
                         (actions (snd (ClipboardAction_new p options w)) (nextAction w)),
              p_trigger = o_trigger options, clearSelection = nextAction w\<rparr>)]))"
proof
  show "copyText p this w =
     (None,
      w\<lparr>commands := commands w @ [a_action (actions w this)],
        emitted := emitted w @
          [(a_emitter (actions w this),
            if execCommand p w (a_action (actions w this)) = Returned True
            then ''success'' else ''error'',
            \<lparr>p_action = a_action (actions w this), p_text = selectedText (actions w this),
             p_trigger = a_trigger (actions w this), clearSelection = this\<rparr>)]\<rparr>)"
    by (simp add: copyText_eq eventOf_def)
next
  show "(commands (snd (ClipboardAction_new p options w)) = commands w \<and>
     emitted (snd (ClipboardAction_new p options w)) = emitted w) \<or>
    (\<exists>name. (name = ''success'' \<or> name = ''error'') \<and>
       commands (snd (ClipboardAction_new p options w)) = commands w @ [o_action options] \<and>
       emitted (snd (ClipboardAction_new p options w)) =
         emitted w @
           [(o_emitter options, name,
             \<lparr>p_action = o_action options,
              p_text = selectedText
                         (actions (snd (ClipboardAction_new p options w)) (nextAction w)),
              p_trigger = o_trigger options, clearSelection = nextAction w\<rparr>)])"
    using new_events [of p options w]
    by (auto simp add: copyText_simps eventOf_def split: if_splits)
qed

section \<open>The controller's click\<close>

lemma andThen_error: "fst r = Some e \<Longrightarrow> andThen r f = (Some e, snd r)"
  by (cases r) (simp add: andThen_def)

lemma andThen_ok: "fst r = None \<Longrightarrow> andThen r f = f (snd r)"
  by (cases r) (simp add: andThen_def)

lemma defaultTarget_no_attribute:
  "\<not> hasAttribute w trigger ''data-clipboard-target'' \<Longrightarrow> defaultTarget p w trigger = Inr JNull"
  by (simp add: defaultTarget_def getAttributeValue_def)

lemma onClick_default_target:
  assumes "c_target (clipboards w this) = DefaultResolver"
      and "\<not> hasAttribute w trigger ''data-clipboard-target''"
  shows "fst (Clipboard_onClick p this trigger w) = Some InvalidTargetValue \<and>
         emitted (snd (Clipboard_onClick p this trigger w)) = emitted w \<and>
         commands (snd (Clipboard_onClick p this trigger w)) = commands w \<and>
         selection (snd (Clipboard_onClick p this trigger w)) = selection w \<and>
         nodes (snd (Clipboard_onClick p this trigger w)) = nodes w \<and>
         nextNode (snd (Clipboard_onClick p this trigger w)) = nextNode w"
proof -
  define w1 where "w1 = (if clipboardAction (clipboards w this) \<noteq> None
                then updClipboard this (\<lambda>c. c\<lparr>clipboardAction := None\<rparr>) w
                else w)"
  define options where "options =
     \<lparr>o_action = (case c_action (clipboards w1 this) of
                      DefaultResolver \<Rightarrow> defaultAction w1 trigger
                    | CustomResolver f \<Rightarrow> f trigger),
      o_container = c_container (clipboards w1 this),
      o_emitter = this, o_target = JNull,
      o_text = (case c_text (clipboards w1 this) of
                           DefaultResolver \<Rightarrow> defaultText w1 trigger
                         | CustomResolver f \<Rightarrow> f trigger),
      o_trigger = Some trigger\<rparr>"
  have frame: "nodes w1 = nodes w" "emitted w1 = emitted w" "commands w1 = commands w"
    "selection w1 = selection w" "nextNode w1 = nextNode w"
    "c_target (clipboards w1 this) = c_target (clipboards w this)"
    by (simp_all add: w1_def updClipboard_def)
  have dt: "defaultTarget p w1 trigger = Inr JNull"
    using assms(2) by (simp add: defaultTarget_no_attribute hasAttribute_def frame)
  have eq: "Clipboard_onClick p this trigger w =
          andThen (ClipboardAction_new p options w1)
            (\<lambda>w2. (None, updClipboard this (\<lambda>c. c\<lparr>clipboardAction := Some (nextAction w1)\<rparr>) w2))"
    unfolding Clipboard_onClick_def Let_def w1_def [symmetric]
    by (simp add: frame assms(1) dt options_def)
  have rej: "o_target options \<noteq> JUndefined"
            "targetRejected w1 (o_action options) (o_target options)"
    by (simp_all add: options_def targetRejected_def isElementRef_def)
  have f: "fst (ClipboardAction_new p options w1) = Some InvalidTargetValue"
    using rej by (simp add: new_fst targetError_def options_def isElementRef_def)
  then have "Clipboard_onClick p this trigger w =
               (Some InvalidTargetValue, snd (ClipboardAction_new p options w1))"
    by (simp add: eq andThen_error)
  then show ?thesis
    using rej by (simp add: new_rejected_world frame)
qed

lemma exampleController_simps:
  "nodes exampleController = nodes exampleWorld"
  "nextNode exampleController = 4"
  "emitted exampleController = []"
  "commands exampleController = []"
  "nextAction exampleController = 0"
  "nextClipboard exampleController = 1"
  "clipboards exampleController 0 =
     \<lparr>c_action = DefaultResolver, c_target = DefaultResolver, c_text = DefaultResolver,
      c_container = 0, clipboardAction = None, listener = True\<rparr>"
  by (simp_all add: exampleController_def Clipboard_new_def Clipboard_resolveOptions_def
        updClipboard_def Let_def exampleWorld_def examplePlatform_def)

text \<open>
  Claim C1, evaluated on the code. The trigger (node 1) carries
  \<open>data-clipboard-text="hello"\<close> and no \<open>data-clipboard-target\<close>, and the controller uses
  the default resolvers. \<open>defaultTarget\<close> returns \<open>null\<close>, which the \<open>target\<close> setter of the
  executor rejects: the click throws "Invalid target value", no scratch textarea is
  created, no command runs and no event is emitted.
\<close>

theorem default_target_rejects_text_trigger:
  "getAttributeValue ''text'' 1 exampleController = Some ''hello'' \<and>
   getAttributeValue ''target'' 1 exampleController = None \<and>
   fst (Clipboard_click examplePlatform 0 1 exampleController) = Some InvalidTargetValue \<and>
   emitted (snd (Clipboard_click examplePlatform 0 1 exampleController)) = [] \<and>
   commands (snd (Clipboard_click examplePlatform 0 1 exampleController)) = [] \<and>
   nextNode (snd (Clipboard_click examplePlatform 0 1 exampleController)) = 4 \<and>
   childNodes (nodes (snd (Clipboard_click examplePlatform 0 1 exampleController)) 0) = []"
proof -
  have a: "c_target (clipboards exampleController 0) = DefaultResolver"
    by (simp add: exampleController_simps)
  have b: "\<not> hasAttribute exampleController 1 ''data-clipboard-target''"
    by (simp add: hasAttribute_def exampleController_simps exampleWorld_def emptyNode_def)
  have c: "Clipboard_click examplePlatform 0 1 exampleController =
             Clipboard_onClick examplePlatform 0 1 exampleController"
    by (simp add: Clipboard_click_def exampleController_simps)
  note r = onClick_default_target [OF a b, of examplePlatform, folded c]
  have t: "getAttributeValue ''text'' 1 exampleController = Some ''hello''"
    "getAttributeValue ''target'' 1 exampleController = None"
    by (simp_all add: getAttributeValue_def hasAttribute_def getAttribute_def
          exampleController_simps exampleWorld_def emptyNode_def)
  have n: "childNodes (nodes exampleController 0) = []"
    by (simp add: exampleController_simps exampleWorld_def emptyNode_def)
  show ?thesis
    using r t n by (simp add: exampleController_simps(2,3,4))
qed

section \<open>Teardown and the scratch element\<close>

lemma removeFake_frame:
  "nextNode (snd (removeFake this w)) = nextNode w"
  "nextAction (snd (removeFake this w)) = nextAction w"
  "clipboards (snd (removeFake this w)) = clipboards w"
  "nextClipboard (snd (removeFake this w)) = nextClipboard w"
  "selection (snd (removeFake this w)) = selection w"
  "activeElement (snd (removeFake this w)) = activeElement w"
  "commands (snd (removeFake this w)) = commands w"
  "emitted (snd (removeFake this w)) = emitted w"
  by (simp_all add: removeFake_def removeChild_def removeEventListener_def andThen_def
        upd_defs Let_def split: option.splits)

lemma removeFake_fst:
  "scratchAttached w this \<Longrightarrow> fst (removeFake this w) = None"
  by (simp add: scratchAttached_def removeFake_def removeChild_def removeEventListener_def
        andThen_def upd_defs Let_def split: option.splits)

lemma removeFake_actions:
  "scratchAttached w this \<Longrightarrow>
   actions (snd (removeFake this w)) a =
     (if a = this then actionAfterRemove (actions w this) else actions w a)"
  by (simp add: scratchAttached_def removeFake_def removeChild_def removeEventListener_def
        andThen_def upd_defs Let_def actionAfterRemove_def split: option.splits)

lemma removeFake_nodes:
  "scratchAttached w this \<Longrightarrow>
   nodes (snd (removeFake this w)) n =
     (if n = a_container (actions w this)
      then (nodes w n)\<lparr>clickListeners := listenersAfterRemove w this,
                        childNodes := childrenAfterRemove w this\<rparr>
      else nodes w n)"
  by (simp add: scratchAttached_def removeFake_def removeChild_def removeEventListener_def
        andThen_def upd_defs Let_def listenersAfterRemove_def childrenAfterRemove_def
        split: option.splits)

lemma wf_attached: "wellFormed w \<Longrightarrow> a < nextAction w \<Longrightarrow> scratchAttached w a"
  by (auto simp add: wellFormed_def wfScratch_def scratchAttached_def split: option.splits)

lemma actionAfterRemove_simps [simp]:
  "fakeElem (actionAfterRemove a) = None"
  "a_container (actionAfterRemove a) = a_container a"
  "\<not> truthy (fakeHandler (actionAfterRemove a))"
  by (simp_all add: actionAfterRemove_def)

lemma actionAfterRemove_callback:
  "fakeHandlerCallback (actionAfterRemove a) = Some cb \<Longrightarrow> fakeHandlerCallback a = Some cb"
  by (simp add: actionAfterRemove_def split: if_splits)

lemma removeFake_wfScratch:
  assumes "wellFormed w" "this < nextAction w"
  shows "wfScratch (snd (removeFake this w))" (is "wfScratch ?w'")
proof -
  have att: "scratchAttached w this" using assms by (rule wf_attached)
  have s: "wfScratch w" and d: "wfDistinct w" and c: "wfCallback w"
    using assms(1) by (simp_all add: wellFormed_def)
  note rf = removeFake_frame removeFake_actions [OF att] removeFake_nodes [OF att]
  show ?thesis
    unfolding wfScratch_def
  proof (intro allI impI)
    fix a e
    assume a': "a < nextAction ?w'" and e: "fakeElem (actions ?w' a) = Some e"
    from a' have a: "a < nextAction w" by (simp add: rf)
    from e have ne: "a \<noteq> this" by (auto simp add: rf split: if_splits)
    with e have fe: "fakeElem (actions w a) = Some e" by (simp add: rf)
    note A = s [unfolded wfScratch_def, rule_format, OF a fe]
    have diff: "fakeElem (actions w this) \<noteq> Some e"
      using d a assms(2) fe ne by (auto simp add: wfDistinct_def)
    have cb: "fakeHandlerCallback (actions w this) \<noteq> Some (RemoveFake a)"
      using c assms(2) ne by (auto simp add: wfCallback_def)
    show "e < nextNode ?w' \<and> a_container (actions ?w' a) < nextNode ?w' \<and>
        e \<in> set (childNodes (nodes ?w' (a_container (actions ?w' a)))) \<and>
        truthy (fakeHandler (actions ?w' a)) \<and>
        fakeHandlerCallback (actions ?w' a) = Some (RemoveFake a) \<and>
        RemoveFake a \<in> set (clickListeners (nodes ?w' (a_container (actions ?w' a))))"
      using A ne diff cb
      by (auto simp add: rf listenersAfterRemove_def childrenAfterRemove_def Let_def
            split: option.splits)
  qed
qed

lemma removeFake_wf:
  assumes "wellFormed w" "this < nextAction w"
  shows "wellFormed (snd (removeFake this w))" (is "wellFormed ?w'")
proof -
  have att: "scratchAttached w this" using assms by (rule wf_attached)
  note rf = removeFake_frame removeFake_actions [OF att] removeFake_nodes [OF att]
  have "wfScratch ?w'" using assms by (rule removeFake_wfScratch)
  moreover have "wfDistinct ?w'"
    using assms(1) by (auto simp add: wellFormed_def wfDistinct_def rf split: if_splits)
  moreover have "wfCallback ?w'"
    using assms(1)
    by (auto simp add: wellFormed_def wfCallback_def rf split: if_splits dest: actionAfterRemove_callback)
  moreover have "wfHandler ?w'"
    using assms(1) by (auto simp add: wellFormed_def wfHandler_def rf split: if_splits)
  moreover have "wfListeners ?w'"
    using assms(1)
    by (auto simp add: wellFormed_def wfListeners_def rf listenersAfterRemove_def Let_def
          split: if_splits option.splits)
  moreover have "wfClipboards ?w'"
    using assms(1) by (simp add: wellFormed_def wfClipboards_def rf)
  ultimately show ?thesis by (simp add: wellFormed_def)
qed

lemmas wf_defs = wellFormed_def wfScratch_def wfDistinct_def wfCallback_def wfHandler_def
  wfListeners_def wfClipboards_def

lemma wf_cong:
  assumes "nodes w' = nodes w" "nextNode w' = nextNode w" "actions w' = actions w"
    "nextAction w' = nextAction w" "clipboards w' = clipboards w"
    "nextClipboard w' = nextClipboard w"
  shows "wellFormed w' = wellFormed w"
  unfolding wf_defs assms ..

lemma copyText_wf: "wellFormed (snd (copyText p this w)) = wellFormed w"
  by (rule wf_cong) (simp_all add: copyText_simps)

lemma alloc_wf:
  assumes "wellFormed w" "fakeElem r = None" "fakeHandlerCallback r = None"
    "\<not> truthy (fakeHandler r)"
  shows "wellFormed (w\<lparr>actions := (actions w)(nextAction w := r), nextAction := Suc (nextAction w)\<rparr>)"
    (is "wellFormed ?w'")
proof -
  have "wfScratch ?w'"
    using assms(1,2) unfolding wellFormed_def wfScratch_def
    by (simp add: less_Suc_eq)
  moreover have "wfDistinct ?w'"
    using assms(1,2) unfolding wellFormed_def wfDistinct_def
    by (simp add: less_Suc_eq)
  moreover have "wfCallback ?w'"
    using assms(1,3) unfolding wellFormed_def wfCallback_def
    by (simp add: less_Suc_eq)
  moreover have "wfHandler ?w'"
    using assms(1,4) unfolding wellFormed_def wfHandler_def
    by (simp add: less_Suc_eq)
  moreover have "wfListeners ?w'"
    using assms(1) unfolding wellFormed_def wfListeners_def
    by (auto simp add: less_Suc_eq)
  moreover have "wfClipboards ?w'"
    using assms(1) unfolding wellFormed_def wfClipboards_def
    by (auto simp add: less_Suc_eq)
  ultimately show ?thesis by (simp add: wellFormed_def)
qed

lemma allocated_wf: "wellFormed w \<Longrightarrow> wellFormed (allocated options w)"
  unfolding allocated_def by (rule alloc_wf) (simp_all add: resolvedAction_def)

lemma wf_cong_fields:
  assumes "nodes w' = nodes w" "nextNode w' = nextNode w"
    "nextAction w' = nextAction w" "clipboards w' = clipboards w"
    "nextClipboard w' = nextClipboard w"
    "\<And>a. fakeElem (actions w' a) = fakeElem (actions w a)"
    "\<And>a. a_container (actions w' a) = a_container (actions w a)"
    "\<And>a. fakeHandler (actions w' a) = fakeHandler (actions w a)"
    "\<And>a. fakeHandlerCallback (actions w' a) = fakeHandlerCallback (actions w a)"
  shows "wellFormed w' = wellFormed w"
  unfolding wf_defs assms ..

lemma withSelection_wf: "wellFormed (withSelection this n w) = wellFormed w"
  by (rule wf_cong_fields) (simp_all add: withSelection_def)

lemma withScratch_wf:
  assumes "wellFormed w" "this < nextAction w" "fakeElem (actions w this) = None"
      and "a_container (actions w this) < nextNode w"
  shows "wellFormed (withScratch p this s w)" (is "wellFormed ?w'")
proof -
  have c: "a_container (actions w this) \<noteq> nextNode w"
    using assms(4) by simp
  note ws = withScratch_simps withScratch_nodes [OF c]
  have s: "wfScratch w" and d: "wfDistinct w" and cb: "wfCallback w"
    and l: "wfListeners w" and cl: "wfClipboards w" and hd: "wfHandler w"
    using assms(1) by (simp_all add: wellFormed_def)
  have "wfScratch ?w'"
    unfolding wfScratch_def
  proof (intro allI impI)
    fix a e
    assume a': "a < nextAction ?w'" and e: "fakeElem (actions ?w' a) = Some e"
    show "e < nextNode ?w' \<and> a_container (actions ?w' a) < nextNode ?w' \<and>
        e \<in> set (childNodes (nodes ?w' (a_container (actions ?w' a)))) \<and>
        truthy (fakeHandler (actions ?w' a)) \<and>
        fakeHandlerCallback (actions ?w' a) = Some (RemoveFake a) \<and>
        RemoveFake a \<in> set (clickListeners (nodes ?w' (a_container (actions ?w' a))))"
    proof (cases "a = this")
      case True
      then show ?thesis using e assms(4) by (simp add: ws)
    next
      case False
      with e have fe: "fakeElem (actions w a) = Some e" by (simp add: ws)
      from a' have a: "a < nextAction w" by (simp add: ws)
      note A = s [unfolded wfScratch_def, rule_format, OF a fe]
      show ?thesis using A False by (auto simp add: ws)
    qed
  qed
  moreover have "wfDistinct ?w'"
    unfolding wfDistinct_def
  proof (intro allI impI)
    fix a b e
    assume a': "a < nextAction ?w'" and b': "b < nextAction ?w'"
       and e: "fakeElem (actions ?w' a) = Some e \<and> fakeElem (actions ?w' b) = Some e"
    have lt: "\<And>x y. x < nextAction w \<Longrightarrow> fakeElem (actions w x) = Some y \<Longrightarrow> y < nextNode w"
      using s by (simp add: wfScratch_def)
    show "a = b"
    proof (cases "a = this"; cases "b = this")
      assume "a \<noteq> this" "b \<noteq> this"
      then show ?thesis using d a' b' e by (simp add: ws wfDistinct_def)
    next
      assume "a = this" "b \<noteq> this"
      then show ?thesis using e b' lt [of b e] by (simp add: ws)
    next
      assume "a \<noteq> this" "b = this"
      then show ?thesis using e a' lt [of a e] by (simp add: ws)
    qed simp
  qed
  moreover have "wfCallback ?w'"
    using cb unfolding wfCallback_def by (simp add: ws)
  moreover have "wfHandler ?w'"
    using hd unfolding wfHandler_def by (simp add: ws)
  moreover have "wfListeners ?w'"
    using l assms(2) unfolding wfListeners_def
    by (auto simp add: ws scratchNode_def split: if_splits)
  moreover have "wfClipboards ?w'"
    using cl unfolding wfClipboards_def by (auto simp add: ws)
  ultimately show ?thesis by (simp add: wellFormed_def)
qed

lemma new_wf:
  assumes "wellFormed w" "o_container options < nextNode w"
  shows "wellFormed (snd (ClipboardAction_new p options w))"
proof (cases "o_target options \<noteq> JUndefined \<and>
              targetRejected w (o_action options) (o_target options)")
  case True
  have "wellFormed (w\<lparr>actions := (actions w)(nextAction w := partialAction options),
              nextAction := Suc (nextAction w)\<rparr>)"
    using assms(1) by (rule alloc_wf) (simp_all add: partialAction_def)
  then show ?thesis using True by (simp add: new_rejected_world)
next
  case ok: False
  have al: "wellFormed (allocated options w)" using assms(1) by (rule allocated_wf)
  show ?thesis
  proof (cases "truthyStr (o_text options)")
    case True
    then obtain s where s: "o_text options = Some s" "s \<noteq> []"
      by (auto simp add: truthyStr_def split: option.splits)
    have eq: "ClipboardAction_new p options w =
           copyText p (nextAction w) (withScratch p (nextAction w) s (allocated options w))"
      using ok s assms(2) by (intro new_text) auto
    have "wellFormed (withScratch p (nextAction w) s (allocated options w))"
      using al by (rule withScratch_wf) (simp_all add: resolvedAction_def assms(2))
    then show ?thesis by (simp add: eq copyText_wf)
  next
    case False
    show ?thesis
    proof (cases "o_target options")
      case (JNode n)
      then show ?thesis using ok False al
        by (auto simp add: new_cases copyText_wf withSelection_wf)
    qed (use ok False al in \<open>auto simp add: new_cases\<close>)
  qed
qed

lemma removeFake_children:
  assumes "scratchAttached w b"
  shows "set (childNodes (nodes (snd (removeFake b w)) n)) \<subseteq> set (childNodes (nodes w n))"
    and "fakeElem (actions w b) = Some e \<Longrightarrow>
         e \<notin> set (childNodes (nodes (snd (removeFake b w)) (a_container (actions w b))))"
  by (auto simp add: removeFake_nodes [OF assms] childrenAfterRemove_def Let_def
        split: option.splits)

lemma runListeners_wf: "wellFormed w \<Longrightarrow> wellFormed (runListeners cbs c w)"
proof (induction cbs c w rule: runListeners.induct)
  case (1 c w)
  then show ?case by simp
next
  case (2 a cbs c w)
  show ?case
  proof (cases "RemoveFake a \<in> set (clickListeners (nodes w c))")
    case True
    then have "a < nextAction w"
      using "2.prems" by (auto simp add: wellFormed_def wfListeners_def)
    then have "wellFormed (snd (removeFake a w))"
      using "2.prems" removeFake_wf by blast
    then show ?thesis using True "2.IH" by simp
  next
    case False
    then show ?thesis using "2.prems" "2.IH" by simp
  qed
qed

lemma runListeners_frame:
  "wellFormed w \<Longrightarrow>
   nextAction (runListeners cbs c w) = nextAction w \<and>
   (\<forall>a. a_container (actions (runListeners cbs c w) a) = a_container (actions w a)) \<and>
   (\<forall>n. set (childNodes (nodes (runListeners cbs c w) n)) \<subseteq> set (childNodes (nodes w n)))"
proof (induction cbs c w rule: runListeners.induct)
  case (1 c w)
  then show ?case by simp
next
  case (2 b cbs c w)
  show ?case
  proof (cases "RemoveFake b \<in> set (clickListeners (nodes w c))")
    case True
    then have b: "b < nextAction w"
      using "2.prems" by (auto simp add: wellFormed_def wfListeners_def)
    have att: "scratchAttached w b" using "2.prems" b by (rule wf_attached)
    have wf1: "wellFormed (snd (removeFake b w))"
      using "2.prems" b by (rule removeFake_wf)
    have step: "nextAction (snd (removeFake b w)) = nextAction w"
      "\<And>a. a_container (actions (snd (removeFake b w)) a) = a_container (actions w a)"
      "\<And>n. set (childNodes (nodes (snd (removeFake b w)) n)) \<subseteq> set (childNodes (nodes w n))"
      using removeFake_children(1) [OF att]
      by (simp_all add: removeFake_frame removeFake_actions [OF att])
    have ih: "nextAction (runListeners cbs c (snd (removeFake b w))) = nextAction (snd (removeFake b w)) \<and>
      (\<forall>a. a_container (actions (runListeners cbs c (snd (removeFake b w))) a) =
            a_container (actions (snd (removeFake b w)) a)) \<and>
      (\<forall>n. set (childNodes (nodes (runListeners cbs c (snd (removeFake b w))) n))
            \<subseteq> set (childNodes (nodes (snd (removeFake b w)) n)))"
      using "2.IH" True wf1 by simp
    show ?thesis
      using True ih step by (simp, blast)
  next
    case False
    then show ?thesis using "2.prems" "2.IH" by simp
  qed
qed

lemma runListeners_clears:
  assumes "wellFormed w"
      and "\<forall>a<nextAction w. a_container (actions w a) = c \<and> fakeElem (actions w a) \<noteq> None
             \<longrightarrow> RemoveFake a \<in> set cbs"
  shows "\<forall>a<nextAction w. a_container (actions w a) = c \<longrightarrow>
           fakeElem (actions (runListeners cbs c w) a) = None \<and>
           (\<forall>e. fakeElem (actions w a) = Some e \<longrightarrow>
                e \<notin> set (childNodes (nodes (runListeners cbs c w) c)))"
  using assms
proof (induction cbs c w rule: runListeners.induct)
  case (1 c w)
  then show ?case by auto
next
  case (2 b cbs c w)
  note wfw = "2.prems"(1)
  note cover = "2.prems"(2)
  have sw: "wfScratch w" using wfw by (simp add: wellFormed_def)
  show ?case
  proof (cases "RemoveFake b \<in> set (clickListeners (nodes w c))")
    case reg: True
    let ?w1 = "snd (removeFake b w)"
    from reg have b: "b < nextAction w"
      using wfw by (auto simp add: wellFormed_def wfListeners_def)
    have att: "scratchAttached w b" using wfw b by (rule wf_attached)
    have wf1: "wellFormed ?w1" using wfw b by (rule removeFake_wf)
    note rf = removeFake_frame removeFake_actions [OF att]
    have cover1: "\<forall>a<nextAction ?w1. a_container (actions ?w1 a) = c \<and>
                    fakeElem (actions ?w1 a) \<noteq> None \<longrightarrow> RemoveFake a \<in> set cbs"
      using cover by (auto simp add: rf split: if_splits)
    have ih: "\<forall>a<nextAction ?w1. a_container (actions ?w1 a) = c \<longrightarrow>
           fakeElem (actions (runListeners cbs c ?w1) a) = None \<and>
           (\<forall>e. fakeElem (actions ?w1 a) = Some e \<longrightarrow>
                e \<notin> set (childNodes (nodes (runListeners cbs c ?w1) c)))"
      using "2.IH" reg wf1 cover1 by simp
    have mono: "set (childNodes (nodes (runListeners cbs c ?w1) c)) \<subseteq> set (childNodes (nodes ?w1 c))"
      using runListeners_frame [OF wf1, of cbs c] by blast
    show ?thesis
    proof (intro allI impI)
      fix a
      assume a: "a < nextAction w" and ca: "a_container (actions w a) = c"
      have a1: "a < nextAction ?w1" "a_container (actions ?w1 a) = c"
        using a ca by (auto simp add: rf)
      have none: "fakeElem (actions (runListeners cbs c ?w1) a) = None"
        using ih a1 by simp
      have gone: "e \<notin> set (childNodes (nodes (runListeners cbs c ?w1) c))"
        if e: "fakeElem (actions w a) = Some e" for e
      proof (cases "a = b")
        case True
        then have "e \<notin> set (childNodes (nodes ?w1 c))"
          using removeFake_children(2) [OF att, of e] e ca by simp
        then show ?thesis using mono by blast
      next
        case False
        then have "fakeElem (actions ?w1 a) = Some e" using e by (simp add: rf)
        then show ?thesis using ih a1 by simp
      qed
      show "fakeElem (actions (runListeners (RemoveFake b # cbs) c w) a) = None \<and>
           (\<forall>e. fakeElem (actions w a) = Some e \<longrightarrow>
                e \<notin> set (childNodes (nodes (runListeners (RemoveFake b # cbs) c w) c)))"
        using reg none gone by simp
    qed
  next
    case unreg: False
    have cover1: "\<forall>a<nextAction w. a_container (actions w a) = c \<and>
                    fakeElem (actions w a) \<noteq> None \<longrightarrow> RemoveFake a \<in> set cbs"
    proof (intro allI impI)
      fix a
      assume a: "a < nextAction w"
         and h: "a_container (actions w a) = c \<and> fakeElem (actions w a) \<noteq> None"
      then obtain e where e: "fakeElem (actions w a) = Some e" by auto
      have "RemoveFake a \<in> set (clickListeners (nodes w c))"
        using sw [unfolded wfScratch_def, rule_format, OF a e] h by simp
      then have "a \<noteq> b" using unreg by auto
      then show "RemoveFake a \<in> set cbs" using cover a h by auto
    qed
    show ?thesis
      using "2.IH" unreg wfw cover1 by simp
  qed
qed

lemma containerClick_wf: "wellFormed w \<Longrightarrow> wellFormed (containerClick c w)"
  unfolding containerClick_def by (rule runListeners_wf)

lemma containerClick_clears:
  assumes "wellFormed w" "a < nextAction w" "a_container (actions w a) = c"
  shows "fakeElem (actions (containerClick c w) a) = None"
    and "fakeElem (actions w a) = Some e \<Longrightarrow> e \<notin> set (childNodes (nodes (containerClick c w) c))"
proof -
  have sw: "wfScratch w" using assms(1) by (simp add: wellFormed_def)
  have cover: "\<forall>a<nextAction w. a_container (actions w a) = c \<and> fakeElem (actions w a) \<noteq> None
             \<longrightarrow> RemoveFake a \<in> set (clickListeners (nodes w c))"
    using sw by (auto simp add: wfScratch_def)
  note r = runListeners_clears [OF assms(1) cover, rule_format, OF assms(2,3), folded containerClick_def]
  show "fakeElem (actions (containerClick c w) a) = None" using r by simp
  show "fakeElem (actions w a) = Some e \<Longrightarrow> e \<notin> set (childNodes (nodes (containerClick c w) c))"
    using r by simp
qed

lemma clearSelection_wf: "wellFormed (ClipboardAction_clearSelection this w) = wellFormed w"
  by (rule wf_cong) (simp_all add: ClipboardAction_clearSelection_def split: option.splits)

lemma initial_wf: "initial w \<Longrightarrow> wellFormed w"
  by (simp add: initial_def wf_defs)

lemma updClipboard_simps:
  "nodes (updClipboard c f w) = nodes w"
  "nextNode (updClipboard c f w) = nextNode w"
  "actions (updClipboard c f w) = actions w"
  "nextAction (updClipboard c f w) = nextAction w"
  "nextClipboard (updClipboard c f w) = nextClipboard w"
  "selection (updClipboard c f w) = selection w"
  "activeElement (updClipboard c f w) = activeElement w"
  "commands (updClipboard c f w) = commands w"
  "emitted (updClipboard c f w) = emitted w"
  "clipboards (updClipboard c f w) x = (if x = c then f (clipboards w c) else clipboards w x)"
  by (simp_all add: updClipboard_def)

lemma updClipboard_wf:
  assumes "wellFormed w"
      and "c_container (f (clipboards w c)) < nextNode w"
      and "\<And>a. clipboardAction (f (clipboards w c)) = Some a \<Longrightarrow> a < nextAction w"
  shows "wellFormed (updClipboard c f w)"
proof -
  have "wfClipboards (updClipboard c f w)"
    using assms unfolding wellFormed_def wfClipboards_def by (auto simp add: updClipboard_simps)
  moreover have "wfScratch (updClipboard c f w) = wfScratch w"
    "wfDistinct (updClipboard c f w) = wfDistinct w"
    "wfCallback (updClipboard c f w) = wfCallback w"
    "wfHandler (updClipboard c f w) = wfHandler w"
    "wfListeners (updClipboard c f w) = wfListeners w"
    unfolding wfScratch_def wfDistinct_def wfCallback_def wfHandler_def wfListeners_def
      updClipboard_simps
    by simp_all
  ultimately show ?thesis using assms(1) by (simp add: wellFormed_def)
qed

lemma Clipboard_new_wf:
  assumes "wellFormed w" "body p < nextNode w" "\<forall>e. opt_container options = Some e \<longrightarrow> e < nextNode w"
  shows "wellFormed (Clipboard_new p options w)"
proof -
  have "wfClipboards (Clipboard_new p options w)"
    using assms unfolding wellFormed_def wfClipboards_def
    by (auto simp add: Clipboard_new_def Clipboard_resolveOptions_def updClipboard_def Let_def
          less_Suc_eq split: option.splits)
  moreover have "wfScratch (Clipboard_new p options w) = wfScratch w"
    "wfDistinct (Clipboard_new p options w) = wfDistinct w"
    "wfCallback (Clipboard_new p options w) = wfCallback w"
    "wfHandler (Clipboard_new p options w) = wfHandler w"
    "wfListeners (Clipboard_new p options w) = wfListeners w"
    unfolding wfScratch_def wfDistinct_def wfCallback_def wfHandler_def wfListeners_def
    by (simp_all add: Clipboard_new_def Clipboard_resolveOptions_def updClipboard_def Let_def)
  ultimately show ?thesis using assms(1) by (simp add: wellFormed_def)
qed

lemma selectFake_fresh_frame:
  assumes "\<not> truthy (fakeHandler (actions w this))" "fakeElem (actions w this) = None"
  shows "nextAction (snd (selectFake p this w)) = nextAction w"
    and "clipboards (snd (selectFake p this w)) = clipboards w"
    and "nextClipboard (snd (selectFake p this w)) = nextClipboard w"
    and "nextNode (snd (selectFake p this w)) = Suc (nextNode w)"
proof -
  have rf: "removeFake this w = (None, w)"
    using assms(1,2) by (rule removeFake_fresh)
  have "\<exists>w1. selectFake p this w = copyText p this w1 \<and> nextAction w1 = nextAction w \<and>
          clipboards w1 = clipboards w \<and> nextClipboard w1 = nextClipboard w \<and>
          nextNode w1 = Suc (nextNode w)"
    apply (simp only: selectFake_def rf andThen_def Let_def prod.case option.case
             createElement_def select_elem_def)
    apply (rule exI, rule conjI, rule refl)
    apply (simp add: addEventListener_def appendChild_def upd_defs split del: if_split cong: if_cong)
    done
  then obtain w1 where w1: "selectFake p this w = copyText p this w1"
      "nextAction w1 = nextAction w" "clipboards w1 = clipboards w"
      "nextClipboard w1 = nextClipboard w" "nextNode w1 = Suc (nextNode w)"
    by blast
  show "nextAction (snd (selectFake p this w)) = nextAction w"
    and "clipboards (snd (selectFake p this w)) = clipboards w"
    and "nextClipboard (snd (selectFake p this w)) = nextClipboard w"
    and "nextNode (snd (selectFake p this w)) = Suc (nextNode w)"
    by (simp_all add: w1 copyText_simps)
qed

lemma new_frame:
  "nextAction (snd (ClipboardAction_new p options w)) = Suc (nextAction w)"
  "clipboards (snd (ClipboardAction_new p options w)) = clipboards w"
  "nextClipboard (snd (ClipboardAction_new p options w)) = nextClipboard w"
  "nextNode w \<le> nextNode (snd (ClipboardAction_new p options w))"
proof -
  have f: "\<not> truthy (fakeHandler (actions (allocated options w) (nextAction w)))"
          "fakeElem (actions (allocated options w) (nextAction w)) = None"
    by (simp_all add: resolvedAction_def)
  note sf = selectFake_fresh_frame [OF f]
  show "nextAction (snd (ClipboardAction_new p options w)) = Suc (nextAction w)"
    by (simp add: new_cases sf copyText_simps withSelection_def split: jsval.splits)
  show "clipboards (snd (ClipboardAction_new p options w)) = clipboards w"
    by (simp add: new_cases sf copyText_simps withSelection_def split: jsval.splits)
  show "nextClipboard (snd (ClipboardAction_new p options w)) = nextClipboard w"
    by (simp add: new_cases sf copyText_simps withSelection_def split: jsval.splits)
  show "nextNode w \<le> nextNode (snd (ClipboardAction_new p options w))"
    by (simp add: new_cases sf copyText_simps withSelection_def split: jsval.splits)
qed

lemma onClick_wf:
  assumes "wellFormed w" "this < nextClipboard w"
  shows "wellFormed (snd (Clipboard_onClick p this trigger w))"
proof -
  define w1 where "w1 = (if clipboardAction (clipboards w this) \<noteq> None
                then updClipboard this (\<lambda>c. c\<lparr>clipboardAction := None\<rparr>) w
                else w)"
  have cw: "c_container (clipboards w this) < nextNode w"
    using assms by (simp add: wellFormed_def wfClipboards_def)
  have wf1: "wellFormed w1"
    unfolding w1_def using assms(1) cw by (auto intro: updClipboard_wf)
  have c1: "c_container (clipboards w1 this) < nextNode w1"
    using cw by (simp add: w1_def updClipboard_simps)
  have n1: "this < nextClipboard w1"
    using assms(2) by (simp add: w1_def updClipboard_simps)
  show ?thesis
  proof (cases "case c_target (clipboards w1 this) of
                  DefaultResolver \<Rightarrow> defaultTarget p w1 trigger
                | CustomResolver f \<Rightarrow> Inr (f trigger)")
    case (Inl e)
    then show ?thesis
      unfolding Clipboard_onClick_def Let_def w1_def [symmetric] using wf1 by simp
  next
    case (Inr target)
    define options where "options =
       \<lparr>o_action = (case c_action (clipboards w1 this) of
                      DefaultResolver \<Rightarrow> defaultAction w1 trigger
                    | CustomResolver f \<Rightarrow> f trigger),
        o_container = c_container (clipboards w1 this),
        o_emitter = this, o_target = target,
        o_text = (case c_text (clipboards w1 this) of
                           DefaultResolver \<Rightarrow> defaultText w1 trigger
                         | CustomResolver f \<Rightarrow> f trigger),
        o_trigger = Some trigger\<rparr>"
    let ?r = "ClipboardAction_new p options w1"
    have eq: "Clipboard_onClick p this trigger w =
          andThen ?r
            (\<lambda>w2. (None, updClipboard this (\<lambda>c. c\<lparr>clipboardAction := Some (nextAction w1)\<rparr>) w2))"
      unfolding Clipboard_onClick_def Let_def w1_def [symmetric]
      by (simp add: Inr options_def)
    have wfr: "wellFormed (snd ?r)"
      using wf1 c1 by (intro new_wf) (simp_all add: options_def)
    show ?thesis
    proof (cases "fst ?r")
      case None
      have "wellFormed (updClipboard this (\<lambda>c. c\<lparr>clipboardAction := Some (nextAction w1)\<rparr>) (snd ?r))"
        using wfr c1 new_frame(4) [where w = w1 and p = p and options = options]
        by (intro updClipboard_wf) (simp_all add: new_frame(1,2,3))
      then show ?thesis using None by (simp add: eq andThen_ok)
    next
      case (Some e)
      then show ?thesis using wfr by (simp add: eq andThen_error)
    qed
  qed
qed

lemma click_wf:
  "wellFormed w \<Longrightarrow> this < nextClipboard w \<Longrightarrow> wellFormed (snd (Clipboard_click p this trigger w))"
  by (simp add: Clipboard_click_def onClick_wf)

lemma removeFake_onlyDetached:
  "scratchAttached w a \<Longrightarrow> onlyDetached w (snd (removeFake a w))"
  by (auto simp add: onlyDetached_def removeFake_frame removeFake_nodes
        listenersAfterRemove_def childrenAfterRemove_def Let_def split: option.splits)

lemma removeFake_twice:
  assumes "scratchAttached w a"
  shows "removeFake a (snd (removeFake a w)) = (None, snd (removeFake a w))"
  by (rule removeFake_fresh) (simp_all add: removeFake_actions [OF assms])

lemma listener_off: "\<not> listener c \<Longrightarrow> c\<lparr>listener := False\<rparr> = c"
  by (cases c) simp

lemma updClipboard_id: "f (clipboards w c) = clipboards w c \<Longrightarrow> updClipboard c f w = w"
  by (simp add: updClipboard_def)

lemma Clipboard_destroy_noop:
  assumes "\<not> listener (clipboards w this)" "clipboardAction (clipboards w this) = None"
  shows "Clipboard_destroy this w = (None, w)"
proof -
  have "updClipboard this (\<lambda>c. c\<lparr>listener := False\<rparr>) w = w"
    using assms(1) by (intro updClipboard_id listener_off)
  then show ?thesis
    using assms(2) by (simp add: Clipboard_destroy_def Let_def)
qed

lemma Clipboard_destroy_cases:
  assumes "wellFormed w" "this < nextClipboard w"
  shows "Clipboard_destroy this w =
     (None,
      case clipboardAction (clipboards w this) of
        None \<Rightarrow> updClipboard this (\<lambda>c. c\<lparr>listener := False\<rparr>) w
      | Some a \<Rightarrow>
          updClipboard this (\<lambda>c. c\<lparr>clipboardAction := None\<rparr>)
            (snd (removeFake a (updClipboard this (\<lambda>c. c\<lparr>listener := False\<rparr>) w))))"
proof (cases "clipboardAction (clipboards w this)")
  case None
  then show ?thesis
    by (simp add: Clipboard_destroy_def Let_def updClipboard_simps)
next
  case (Some a)
  let ?w1 = "updClipboard this (\<lambda>c. c\<lparr>listener := False\<rparr>) w"
  have a: "a < nextAction w"
    using assms Some by (simp add: wellFormed_def wfClipboards_def)
  have "scratchAttached w a" using assms(1) a by (rule wf_attached)
  then have "scratchAttached ?w1 a"
    by (simp add: scratchAttached_def updClipboard_simps split: option.splits)
  then have "fst (removeFake a ?w1) = None" by (rule removeFake_fst)
  then show ?thesis
    using Some
    by (simp add: Clipboard_destroy_def ClipboardAction_destroy_def Let_def updClipboard_simps
          andThen_ok)
qed

lemma onlyDetached_updClipboard:
  "onlyDetached w (updClipboard c f w')  = onlyDetached w w'"
  "onlyDetached (updClipboard c f w) w'  = onlyDetached w w'"
  by (simp_all add: onlyDetached_def updClipboard_simps)

lemma onlyDetached_refl: "onlyDetached w w"
  by (simp add: onlyDetached_def)

lemma scratchAttached_updClipboard:
  "scratchAttached (updClipboard c f w) a = scratchAttached w a"
  by (simp add: scratchAttached_def updClipboard_simps split: option.splits)

lemma Clipboard_destroy_props:
  assumes "wellFormed w" "this < nextClipboard w"
  shows "fst (Clipboard_destroy this w) = None"
    and "\<not> listener (clipboards (snd (Clipboard_destroy this w)) this)"
    and "clipboardAction (clipboards (snd (Clipboard_destroy this w)) this) = None"
    and "onlyDetached w (snd (Clipboard_destroy this w))"
    and "wellFormed (snd (Clipboard_destroy this w))"
proof -
  let ?w1 = "updClipboard this (\<lambda>c. c\<lparr>listener := False\<rparr>) w"
  note eq = Clipboard_destroy_cases [OF assms]
  have cl: "c_container (clipboards w this) < nextNode w"
    "\<And>a. clipboardAction (clipboards w this) = Some a \<Longrightarrow> a < nextAction w"
    using assms by (simp_all add: wellFormed_def wfClipboards_def)
  have wf1: "wellFormed ?w1"
    using assms(1) cl by (intro updClipboard_wf) simp_all
  show "fst (Clipboard_destroy this w) = None" by (simp add: eq)
  show "\<not> listener (clipboards (snd (Clipboard_destroy this w)) this)"
    by (simp add: eq updClipboard_simps removeFake_frame split: option.splits)
  show "clipboardAction (clipboards (snd (Clipboard_destroy this w)) this) = None"
    by (simp add: eq updClipboard_simps removeFake_frame split: option.splits)
  show "onlyDetached w (snd (Clipboard_destroy this w))"
  proof (cases "clipboardAction (clipboards w this)")
    case None
    then show ?thesis by (simp add: eq onlyDetached_updClipboard onlyDetached_refl)
  next
    case (Some a)
    have "scratchAttached ?w1 a"
      using assms(1) cl(2) [OF Some]
      by (simp add: scratchAttached_updClipboard wf_attached)
    then have "onlyDetached ?w1 (snd (removeFake a ?w1))"
      by (rule removeFake_onlyDetached)
    then show ?thesis using Some by (simp add: eq onlyDetached_updClipboard)
  qed
  show "wellFormed (snd (Clipboard_destroy this w))"
  proof (cases "clipboardAction (clipboards w this)")
    case None
    then show ?thesis using wf1 by (simp add: eq)
  next
    case (Some a)
    have "a < nextAction ?w1" using cl(2) [OF Some] by (simp add: updClipboard_simps)
    then have "wellFormed (snd (removeFake a ?w1))"
      using wf1 removeFake_wf by blast
    then have "wellFormed (updClipboard this (\<lambda>c. c\<lparr>clipboardAction := None\<rparr>)
                 (snd (removeFake a ?w1)))"
      using cl(1) by (intro updClipboard_wf) (simp_all add: removeFake_frame updClipboard_simps)
    then show ?thesis using Some by (simp add: eq)
  qed
qed

lemma reachable_wellFormed: "reachable p w \<Longrightarrow> wellFormed w"
proof (induction rule: reachable.induct)
  case (start w)
  then show ?case by (rule initial_wf)
next
  case (new_action w options)
  then show ?case by (simp add: new_wf)
next
  case (destroy_action w this)
  then show ?case by (simp add: ClipboardAction_destroy_def removeFake_wf)
next
  case (clear_selection w this)
  then show ?case by (simp add: clearSelection_wf)
next
  case (container_click w c)
  then show ?case by (simp add: containerClick_wf)
next
  case (new_clipboard w options)
  then show ?case by (simp add: Clipboard_new_wf)
next
  case (trigger_click w this trigger)
  then show ?case by (simp add: click_wf)
next
  case (destroy_clipboard w this)
  then show ?case by (simp add: Clipboard_destroy_props)
qed

lemma removeFake_exact:
  assumes "wellFormed w" "this < nextAction w"
  shows "removeFake this w = (None, detachScratch this w)"
proof (cases "fakeElem (actions w this)")
  case None
  have "\<not> truthy (fakeHandler (actions w this))"
    using assms None by (auto simp add: wellFormed_def wfHandler_def)
  then show ?thesis using None by (simp add: removeFake_fresh detachScratch_def)
next
  case (Some e)
  have A: "e \<in> set (childNodes (nodes w (a_container (actions w this))))"
    "truthy (fakeHandler (actions w this))"
    "fakeHandlerCallback (actions w this) = Some (RemoveFake this)"
    using assms Some by (simp_all add: wellFormed_def wfScratch_def)
  show ?thesis
    using Some A
    by (simp add: removeFake_def removeChild_def removeEventListener_def andThen_def
          upd_defs Let_def detachScratch_def)
qed

lemma removeFake_detached:
  assumes "fakeElem (actions w this) = Some e"
      and "e \<notin> set (childNodes (nodes w (a_container (actions w this))))"
  shows "fst (removeFake this w) = Some NotFoundError"
    and "fakeElem (actions (snd (removeFake this w)) this) = Some e"
    and "a_container (actions (snd (removeFake this w)) this) = a_container (actions w this)"
    and "childNodes (nodes (snd (removeFake this w)) n) = childNodes (nodes w n)"
  using assms
  by (simp_all add: removeFake_def removeChild_def removeEventListener_def andThen_def
        upd_defs Let_def split: option.splits)

lemma detachScratch_held:
  assumes "fakeElem (actions w this) = Some e"
  shows "childNodes (nodes (detachScratch this w) (a_container (actions w this))) =
           removeAll e (childNodes (nodes w (a_container (actions w this))))"
    and "clickListeners (nodes (detachScratch this w) (a_container (actions w this))) =
           removeAll (RemoveFake this) (clickListeners (nodes w (a_container (actions w this))))"
    and "fakeElem (actions (detachScratch this w) this) = None"
  using assms by (simp_all add: detachScratch_def Let_def)

text \<open>
  Claim C9, as amended. In every reachable world (a world built by the operations of the
  two classes and by clicks, the page not having detached a scratch element itself),
  \<open>destroy\<close> of an existing executor completes without throwing and leaves exactly the
  world \<open>detachScratch\<close>: the scratch element is no longer a child of the container, the
  executor's click listener is no longer registered there, the executor's three fields
  are null, and nothing else has changed; an executor that holds no scratch element is
  left as it was; a second call changes nothing. \<open>destroy\<close> of an existing controller
  completes without throwing, detaches its click listener, does the same teardown for the
  executor it holds and drops it; a second call changes nothing and a later click on a
  trigger has no effect.
\<close>

theorem destroy_safe_idempotent:
  assumes "reachable p w"
  shows "(this < nextAction w \<longrightarrow>
            ClipboardAction_destroy this w = (None, detachScratch this w) \<and>
            ClipboardAction_destroy this (detachScratch this w) = (None, detachScratch this w) \<and>
            fakeElem (actions (detachScratch this w) this) = None \<and>
            (\<forall>e. fakeElem (actions w this) = Some e \<longrightarrow>
               e \<notin> set (childNodes
                          (nodes (detachScratch this w) (a_container (actions w this)))) \<and>
               RemoveFake this \<notin> set (clickListeners
                          (nodes (detachScratch this w) (a_container (actions w this))))) \<and>
            (fakeElem (actions w this) = None \<longrightarrow> detachScratch this w = w) \<and>
            onlyDetached w (detachScratch this w)) \<and>
         (c < nextClipboard w \<longrightarrow>
            Clipboard_destroy c w =
              (None,
               case clipboardAction (clipboards w c) of
                 None \<Rightarrow> updClipboard c (\<lambda>x. x\<lparr>listener := False\<rparr>) w
               | Some a \<Rightarrow>
                   updClipboard c (\<lambda>x. x\<lparr>clipboardAction := None\<rparr>)
                     (detachScratch a (updClipboard c (\<lambda>x. x\<lparr>listener := False\<rparr>) w))) \<and>
            \<not> listener (clipboards (snd (Clipboard_destroy c w)) c) \<and>
            clipboardAction (clipboards (snd (Clipboard_destroy c w)) c) = None \<and>
            Clipboard_destroy c (snd (Clipboard_destroy c w)) =
              (None, snd (Clipboard_destroy c w)) \<and>
            Clipboard_click p c trigger (snd (Clipboard_destroy c w)) =
              (None, snd (Clipboard_destroy c w)) \<and>
            onlyDetached w (snd (Clipboard_destroy c w)))"
proof (intro conjI impI allI)
  have wf: "wellFormed w" using assms by (rule reachable_wellFormed)
  {
    assume a: "this < nextAction w"
    have att: "scratchAttached w this" using wf a by (rule wf_attached)
    have ex: "removeFake this w = (None, detachScratch this w)"
      using wf a by (rule removeFake_exact)
    show "ClipboardAction_destroy this w = (None, detachScratch this w)"
      by (simp add: ClipboardAction_destroy_def ex)
    show "ClipboardAction_destroy this (detachScratch this w) = (None, detachScratch this w)"
      using removeFake_twice [OF att] by (simp add: ClipboardAction_destroy_def ex)
    show "fakeElem (actions (detachScratch this w) this) = None"
      using removeFake_actions [OF att, of this] by (simp add: ex)
    show "onlyDetached w (detachScratch this w)"
      using removeFake_onlyDetached [OF att] by (simp add: ex)
    show "detachScratch this w = w" if "fakeElem (actions w this) = None"
      using that by (simp add: detachScratch_def)
    fix e
    assume e: "fakeElem (actions w this) = Some e"
    show "e \<notin> set (childNodes (nodes (detachScratch this w) (a_container (actions w this))))"
      by (simp add: detachScratch_held [OF e])
    show "RemoveFake this \<notin> set (clickListeners
            (nodes (detachScratch this w) (a_container (actions w this))))"
      by (simp add: detachScratch_held [OF e])
  }
  {
    assume c: "c < nextClipboard w"
    note d = Clipboard_destroy_props [OF wf c]
    let ?w1 = "updClipboard c (\<lambda>x. x\<lparr>listener := False\<rparr>) w"
    have wf1: "wellFormed ?w1"
      using wf c by (intro updClipboard_wf) (simp_all add: wellFormed_def wfClipboards_def)
    have ex: "removeFake a ?w1 = (None, detachScratch a ?w1)"
      if "clipboardAction (clipboards w c) = Some a" for a
    proof -
      have "a < nextAction ?w1"
        using wf c that by (simp add: wellFormed_def wfClipboards_def updClipboard_simps)
      with wf1 show ?thesis by (rule removeFake_exact)
    qed
    show "Clipboard_destroy c w =
              (None,
               case clipboardAction (clipboards w c) of
                 None \<Rightarrow> updClipboard c (\<lambda>x. x\<lparr>listener := False\<rparr>) w
               | Some a \<Rightarrow>
                   updClipboard c (\<lambda>x. x\<lparr>clipboardAction := None\<rparr>)
                     (detachScratch a (updClipboard c (\<lambda>x. x\<lparr>listener := False\<rparr>) w)))"
      using ex by (simp add: Clipboard_destroy_cases [OF wf c] split: option.splits)
    show "\<not> listener (clipboards (snd (Clipboard_destroy c w)) c)" by (rule d)
    show "clipboardAction (clipboards (snd (Clipboard_destroy c w)) c) = None" by (rule d)
    show "Clipboard_destroy c (snd (Clipboard_destroy c w)) = (None, snd (Clipboard_destroy c w))"
      using d(2,3) by (rule Clipboard_destroy_noop)
    show "Clipboard_click p c trigger (snd (Clipboard_destroy c w)) =
              (None, snd (Clipboard_destroy c w))"
      using d(2) by (simp add: Clipboard_click_def)
    show "onlyDetached w (snd (Clipboard_destroy c w))" by (rule d)
  }
qed

lemma new_text_world:
  assumes "o_target options = JUndefined \<or>
           \<not> targetRejected w (o_action options) (o_target options)"
      and "o_text options = Some s" "s \<noteq> []" "o_container options \<noteq> nextNode w"
  shows "fst (ClipboardAction_new p options w) = None"
    and "nextNode (snd (ClipboardAction_new p options w)) = Suc (nextNode w)"
    and "childNodes (nodes (snd (ClipboardAction_new p options w)) (o_container options))
           = childNodes (nodes w (o_container options)) @ [nextNode w]"
    and "nodes (snd (ClipboardAction_new p options w)) (nextNode w) = scratchNode p s"
    and "selection (snd (ClipboardAction_new p options w)) = Some (nextNode w)"
    and "actions (snd (ClipboardAction_new p options w)) a =
           (if a = nextAction w
            then (resolvedAction options)
                   \<lparr>fakeHandlerCallback := Some (RemoveFake (nextAction w)),
                    fakeHandler := JBool True, fakeElem := Some (nextNode w),
                    selectedText := s\<rparr>
            else actions w a)"
proof -
  have eq: "ClipboardAction_new p options w =
           copyText p (nextAction w) (withScratch p (nextAction w) s (allocated options w))"
    using assms by (rule new_text)
  have c: "a_container (actions (allocated options w) (nextAction w)) \<noteq>
             nextNode (allocated options w)"
    using assms(4) by (simp add: resolvedAction_def)
  have cc: "a_container (resolvedAction options) = o_container options"
    by (simp add: resolvedAction_def)
  show "fst (ClipboardAction_new p options w) = None"
    by (simp add: eq copyText_simps)
  show "nextNode (snd (ClipboardAction_new p options w)) = Suc (nextNode w)"
    by (simp add: eq copyText_simps withScratch_simps)
  show "childNodes (nodes (snd (ClipboardAction_new p options w)) (o_container options))
           = childNodes (nodes w (o_container options)) @ [nextNode w]"
    by (simp add: eq copyText_simps withScratch_nodes [OF c] cc)
  show "nodes (snd (ClipboardAction_new p options w)) (nextNode w) = scratchNode p s"
    using assms(4) by (simp add: eq copyText_simps withScratch_nodes [OF c] cc)
  show "selection (snd (ClipboardAction_new p options w)) = Some (nextNode w)"
    by (simp add: eq copyText_simps withScratch_simps)
  show "actions (snd (ClipboardAction_new p options w)) a =
           (if a = nextAction w
            then (resolvedAction options)
                   \<lparr>fakeHandlerCallback := Some (RemoveFake (nextAction w)),
                    fakeHandler := JBool True, fakeElem := Some (nextNode w),
                    selectedText := s\<rparr>
            else actions w a)"
    by (simp add: eq copyText_simps withScratch_simps)
qed

lemma oneAction_simps:
  "nextNode oneAction = 5" "nextAction oneAction = 1"
  "childNodes (nodes oneAction 0) = [4]"
  "fakeElem (actions oneAction 0) = Some 4"
  "a_container (actions oneAction 0) = 0"
proof -
  note w = new_text_world [of "exampleOptions\<lparr>o_text := Some ''hello''\<rparr>" exampleWorld
             "''hello''" examplePlatform, folded oneAction_def]
  have h: "o_target (exampleOptions\<lparr>o_text := Some ''hello''\<rparr>) = JUndefined \<or>
       \<not> targetRejected exampleWorld (o_action (exampleOptions\<lparr>o_text := Some ''hello''\<rparr>))
          (o_target (exampleOptions\<lparr>o_text := Some ''hello''\<rparr>))"
    "o_text (exampleOptions\<lparr>o_text := Some ''hello''\<rparr>) = Some ''hello''"
    "''hello'' \<noteq> []"
    "o_container (exampleOptions\<lparr>o_text := Some ''hello''\<rparr>) \<noteq> nextNode exampleWorld"
    by (simp_all add: exampleOptions_def exampleWorld_def)
  show "nextNode oneAction = 5" using w(2) [OF h] by (simp add: exampleWorld_def)
  show "nextAction oneAction = 1" by (simp add: oneAction_def new_frame exampleWorld_def)
  show "childNodes (nodes oneAction 0) = [4]"
    using w(3) [OF h] by (simp add: exampleWorld_def exampleOptions_def emptyNode_def)
  show "fakeElem (actions oneAction 0) = Some 4"
    using w(6) [OF h, of 0] by (simp add: exampleWorld_def)
  show "a_container (actions oneAction 0) = 0"
    using w(6) [OF h, of 0] by (simp add: exampleWorld_def exampleOptions_def resolvedAction_def)
qed

lemma twoActions_simps:
  "nextNode twoActions = 6" "nextAction twoActions = 2"
  "childNodes (nodes twoActions 0) = [4, 5]"
  "fakeElem (actions twoActions 0) = Some 4"
  "fakeElem (actions twoActions (Suc 0)) = Some 5"
  "a_container (actions twoActions 0) = 0"
  "a_container (actions twoActions (Suc 0)) = 0"
  "tagName (nodes twoActions 5) = ''textarea''"
  "elemValue (nodes twoActions 5) = ''world''"
proof -
  note w = new_text_world [of "exampleOptions\<lparr>o_text := Some ''world''\<rparr>" oneAction
             "''world''" examplePlatform, folded twoActions_def]
  have h: "o_target (exampleOptions\<lparr>o_text := Some ''world''\<rparr>) = JUndefined \<or>
       \<not> targetRejected oneAction (o_action (exampleOptions\<lparr>o_text := Some ''world''\<rparr>))
          (o_target (exampleOptions\<lparr>o_text := Some ''world''\<rparr>))"
    "o_text (exampleOptions\<lparr>o_text := Some ''world''\<rparr>) = Some ''world''"
    "''world'' \<noteq> []"
    "o_container (exampleOptions\<lparr>o_text := Some ''world''\<rparr>) \<noteq> nextNode oneAction"
    by (simp_all add: exampleOptions_def oneAction_simps)
  show "nextNode twoActions = 6" using w(2) [OF h] by (simp add: oneAction_simps)
  show "nextAction twoActions = 2" by (simp add: twoActions_def new_frame oneAction_simps)
  show "childNodes (nodes twoActions 0) = [4, 5]"
    using w(3) [OF h] by (simp add: oneAction_simps exampleOptions_def)
  show "fakeElem (actions twoActions 0) = Some 4"
    using w(6) [OF h, of 0] by (simp add: oneAction_simps)
  show "fakeElem (actions twoActions (Suc 0)) = Some 5"
    using w(6) [OF h, of "Suc 0"] by (simp add: oneAction_simps)
  show "a_container (actions twoActions 0) = 0"
    using w(6) [OF h, of 0] by (simp add: oneAction_simps)
  show "a_container (actions twoActions (Suc 0)) = 0"
    using w(6) [OF h, of "Suc 0"] by (simp add: oneAction_simps exampleOptions_def resolvedAction_def)
  show "tagName (nodes twoActions 5) = ''textarea''"
    using w(4) [OF h] by (simp add: oneAction_simps scratchNode_def)
  show "elemValue (nodes twoActions 5) = ''world''"
    using w(4) [OF h] by (simp add: oneAction_simps scratchNode_def)
qed

text \<open>
  Claim C7 as stated fails: two text-mode executors constructed one after the other on the
  body (node 0), with no click delivered to it in between, leave two scratch elements
  (nodes 4 and 5) among its children, each still held by its executor.
\<close>

theorem two_scratch_elements_counterexample:
  "childNodes (nodes twoActions 0) = [4, 5] \<and>
   fakeElem (actions twoActions 0) = Some 4 \<and>
   fakeElem (actions twoActions 1) = Some 5 \<and>
   a_container (actions twoActions 0) = 0 \<and>
   a_container (actions twoActions 1) = 0"
  by (simp add: twoActions_simps)

lemma new_text_keeps_earlier:
  assumes "wellFormed w" "o_container options < nextNode w" "truthyStr (o_text options)"
      and "o_target options = JUndefined \<or>
           \<not> targetRejected w (o_action options) (o_target options)"
  shows "childNodes (nodes (snd (ClipboardAction_new p options w)) (o_container options))
           = childNodes (nodes w (o_container options)) @ [nextNode w]"
    and "fakeElem (actions (snd (ClipboardAction_new p options w)) (nextAction w))
           = Some (nextNode w)"
    and "a < nextAction w \<Longrightarrow>
         fakeElem (actions (snd (ClipboardAction_new p options w)) a) = fakeElem (actions w a)"
proof -
  obtain s where s: "o_text options = Some s" "s \<noteq> []"
    using assms(3) by (auto simp add: truthyStr_def split: option.splits)
  have c: "o_container options \<noteq> nextNode w" using assms(2) by simp
  note w = new_text_world [OF assms(4) s c]
  show "childNodes (nodes (snd (ClipboardAction_new p options w)) (o_container options))
           = childNodes (nodes w (o_container options)) @ [nextNode w]"
    by (rule w)
  show "fakeElem (actions (snd (ClipboardAction_new p options w)) (nextAction w))
           = Some (nextNode w)"
    by (simp add: w)
  show "a < nextAction w \<Longrightarrow>
         fakeElem (actions (snd (ClipboardAction_new p options w)) a) = fakeElem (actions w a)"
    by (simp add: w)
qed

text \<open>
  Claim C7, as amended. In every reachable world, constructing a text-mode executor appends
  its scratch element to the container and leaves the children of the container and the
  scratch elements of all earlier executors in place; every scratch element an executor
  holds is a child of its container, with the executor's one-shot click listener
  registered there; and when a click is delivered to a container, every executor on that
  container drops its scratch element, which is no longer a child of the container.
\<close>

theorem scratch_removed_on_container_click:
  assumes "reachable p w"
  shows "(o_container options < nextNode w \<and> truthyStr (o_text options) \<and>
          (o_target options = JUndefined \<or>
           \<not> targetRejected w (o_action options) (o_target options)) \<longrightarrow>
            childNodes (nodes (snd (ClipboardAction_new p options w)) (o_container options))
              = childNodes (nodes w (o_container options)) @ [nextNode w] \<and>
            fakeElem (actions (snd (ClipboardAction_new p options w)) (nextAction w))
              = Some (nextNode w) \<and>
            (\<forall>a<nextAction w.
               fakeElem (actions (snd (ClipboardAction_new p options w)) a)
                 = fakeElem (actions w a))) \<and>
         (\<forall>a<nextAction w. \<forall>e. fakeElem (actions w a) = Some e \<longrightarrow>
            e \<in> set (childNodes (nodes w (a_container (actions w a)))) \<and>
            RemoveFake a \<in> set (clickListeners (nodes w (a_container (actions w a))))) \<and>
         (\<forall>a<nextAction w. a_container (actions w a) = c \<longrightarrow>
            fakeElem (actions (containerClick c w) a) = None \<and>
            (\<forall>e. fakeElem (actions w a) = Some e \<longrightarrow>
                 e \<notin> set (childNodes (nodes (containerClick c w) c))))"
proof -
  have wf: "wellFormed w" using assms by (rule reachable_wellFormed)
  have "\<forall>a<nextAction w. \<forall>e. fakeElem (actions w a) = Some e \<longrightarrow>
            e \<in> set (childNodes (nodes w (a_container (actions w a)))) \<and>
            RemoveFake a \<in> set (clickListeners (nodes w (a_container (actions w a))))"
    using wf by (simp add: wellFormed_def wfScratch_def)
  moreover have "\<forall>a<nextAction w. a_container (actions w a) = c \<longrightarrow>
            fakeElem (actions (containerClick c w) a) = None \<and>
            (\<forall>e. fakeElem (actions w a) = Some e \<longrightarrow>
                 e \<notin> set (childNodes (nodes (containerClick c w) c)))"
    using containerClick_clears [OF wf] by auto
  ultimately show ?thesis
    using new_text_keeps_earlier [OF wf, where options = options and p = p] by auto
qed

lemma reachable_examples:
  "reachable examplePlatform exampleWorld"
  "reachable examplePlatform oneAction"
  "reachable examplePlatform twoActions"
  "reachable examplePlatform exampleController"
proof -
  show 0: "reachable examplePlatform exampleWorld"
    by (rule reachable.start) (simp add: initial_def exampleWorld_def emptyNode_def)
  show 1: "reachable examplePlatform oneAction"
    unfolding oneAction_def
    by (rule reachable.new_action [OF 0]) (simp add: exampleOptions_def exampleWorld_def)
  show "reachable examplePlatform twoActions"
    unfolding twoActions_def
    by (rule reachable.new_action [OF 1]) (simp add: exampleOptions_def oneAction_simps)
  show "reachable examplePlatform exampleController"
    unfolding exampleController_def
    by (rule reachable.new_clipboard [OF 0]) (simp_all add: examplePlatform_def exampleWorld_def)
qed

theorem scratch_removed_on_container_click_witness:
  "fakeElem (actions (containerClick 0 twoActions) 0) = None \<and>
   fakeElem (actions (containerClick 0 twoActions) 1) = None \<and>
   4 \<notin> set (childNodes (nodes (containerClick 0 twoActions) 0)) \<and>
   5 \<notin> set (childNodes (nodes (containerClick 0 twoActions) 0))"
proof -
  note t = scratch_removed_on_container_click [OF reachable_examples(3), of exampleOptions 0,
             THEN conjunct2, THEN conjunct2, rule_format]
  show ?thesis
    using t [of 0] t [of "Suc 0"] by (simp add: twoActions_simps)
qed

lemma oneAction_listeners: "clickListeners (nodes oneAction 0) = [RemoveFake 0]"
proof -
  have c: "a_container (actions (allocated (exampleOptions\<lparr>o_text := Some ''hello''\<rparr>)
                                   exampleWorld) (nextAction exampleWorld)) \<noteq>
           nextNode (allocated (exampleOptions\<lparr>o_text := Some ''hello''\<rparr>) exampleWorld)"
    by (simp add: resolvedAction_def exampleOptions_def exampleWorld_def)
  have n: "nextAction exampleWorld = 0" by (simp add: exampleWorld_def)
  show ?thesis
    unfolding oneAction_def example_text_run
    using withScratch_nodes [OF c, of examplePlatform "''hello''" 0]
    by (simp add: copyText_simps n resolvedAction_def exampleOptions_def exampleWorld_def
          emptyNode_def)
qed

lemma detachedWorld_simps:
  "fakeElem (actions detachedWorld 0) = Some 4"
  "a_container (actions detachedWorld 0) = 0"
  "childNodes (nodes detachedWorld 0) = []"
  by (simp_all add: detachedWorld_def updNode_def oneAction_simps)

text \<open>
  Claim C9 as stated fails: \<open>destroy\<close> is not always safe to call. When the page has detached
  the scratch textarea from the container, \<open>removeChild\<close> throws \<open>NotFoundError\<close>; the
  executor keeps its reference to the element, so every later call throws again.
\<close>

theorem destroy_detached_counterexample:
  "fakeElem (actions detachedWorld 0) = Some 4 \<and>
   childNodes (nodes detachedWorld 0) = [] \<and>
   fst (ClipboardAction_destroy 0 detachedWorld) = Some NotFoundError \<and>
   fst (ClipboardAction_destroy 0 (snd (ClipboardAction_destroy 0 detachedWorld))) =
     Some NotFoundError"
proof -
  have h: "fakeElem (actions detachedWorld 0) = Some 4"
    "4 \<notin> set (childNodes (nodes detachedWorld (a_container (actions detachedWorld 0))))"
    by (simp_all add: detachedWorld_simps)
  note r = removeFake_detached [OF h]
  have h2: "fakeElem (actions (snd (removeFake 0 detachedWorld)) 0) = Some 4"
    "4 \<notin> set (childNodes (nodes (snd (removeFake 0 detachedWorld))
               (a_container (actions (snd (removeFake 0 detachedWorld)) 0))))"
    using r(2) by (simp_all add: r(3,4) detachedWorld_simps)
  show ?thesis
    unfolding ClipboardAction_destroy_def
    using r(1) removeFake_detached(1) [OF h2] by (simp add: detachedWorld_simps)
qed

theorem destroy_safe_idempotent_witness:
  "ClipboardAction_destroy 0 oneAction = (None, detachScratch 0 oneAction) \<and>
   childNodes (nodes oneAction 0) = [4] \<and>
   clickListeners (nodes oneAction 0) = [RemoveFake 0] \<and>
   childNodes (nodes (detachScratch 0 oneAction) 0) = [] \<and>
   clickListeners (nodes (detachScratch 0 oneAction) 0) = [] \<and>
   fakeElem (actions (detachScratch 0 oneAction) 0) = None \<and>
   ClipboardAction_destroy 0 (detachScratch 0 oneAction) = (None, detachScratch 0 oneAction) \<and>
   ClipboardAction_destroy 0
       (snd (ClipboardAction_new examplePlatform exampleOptions exampleWorld)) =
     (None, snd (ClipboardAction_new examplePlatform exampleOptions exampleWorld)) \<and>
   fst (Clipboard_destroy 0 exampleController) = None \<and>
   \<not> listener (clipboards (snd (Clipboard_destroy 0 exampleController)) 0) \<and>
   Clipboard_destroy 0 (snd (Clipboard_destroy 0 exampleController)) =
     (None, snd (Clipboard_destroy 0 exampleController)) \<and>
   Clipboard_click examplePlatform 0 1 (snd (Clipboard_destroy 0 exampleController)) =
     (None, snd (Clipboard_destroy 0 exampleController))"
proof -
  have n: "reachable examplePlatform
             (snd (ClipboardAction_new examplePlatform exampleOptions exampleWorld))"
    by (rule reachable.new_action [OF reachable_examples(1)])
       (simp add: exampleOptions_def exampleWorld_def)
  have f: "fakeElem (actions (snd (ClipboardAction_new examplePlatform exampleOptions
                                      exampleWorld)) 0) = None"
    by (simp add: new_cases exampleOptions_def truthyStr_def exampleWorld_def
          resolvedAction_def)
  have na: "nextAction (snd (ClipboardAction_new examplePlatform exampleOptions exampleWorld)) = 1"
    by (simp add: new_frame exampleWorld_def)
  have h: "fakeElem (actions oneAction 0) = Some 4" by (rule oneAction_simps)
  have c0: "a_container (actions oneAction 0) = 0" by (rule oneAction_simps)
  note dh = detachScratch_held [OF h, unfolded c0]
  have d: "childNodes (nodes (detachScratch 0 oneAction) 0) = []"
    "clickListeners (nodes (detachScratch 0 oneAction) 0) = []"
    by (simp_all add: dh oneAction_simps oneAction_listeners)
  have one: "ClipboardAction_destroy 0 oneAction = (None, detachScratch 0 oneAction)"
    "ClipboardAction_destroy 0 (detachScratch 0 oneAction) = (None, detachScratch 0 oneAction)"
    "fakeElem (actions (detachScratch 0 oneAction) 0) = None"
    using destroy_safe_idempotent [OF reachable_examples(2), of 0 0 1]
    by (simp_all add: oneAction_simps)
  have none: "ClipboardAction_destroy 0
       (snd (ClipboardAction_new examplePlatform exampleOptions exampleWorld)) =
     (None, snd (ClipboardAction_new examplePlatform exampleOptions exampleWorld))"
    using destroy_safe_idempotent [OF n, of 0 0 1] f by (simp add: na)
  have lt: "0 < nextClipboard exampleController" by (simp add: exampleController_simps)
  note u = destroy_safe_idempotent [OF reachable_examples(4), of 0 0 "Suc 0",
             THEN conjunct2, rule_format, OF lt]
  have ctl: "fst (Clipboard_destroy 0 exampleController) = None"
    "\<not> listener (clipboards (snd (Clipboard_destroy 0 exampleController)) 0)"
    "Clipboard_destroy 0 (snd (Clipboard_destroy 0 exampleController)) =
       (None, snd (Clipboard_destroy 0 exampleController))"
    "Clipboard_click examplePlatform 0 (Suc 0) (snd (Clipboard_destroy 0 exampleController)) =
       (None, snd (Clipboard_destroy 0 exampleController))"
  proof -
    show "fst (Clipboard_destroy 0 exampleController) = None"
      by (simp add: u [THEN conjunct1])
    show "\<not> listener (clipboards (snd (Clipboard_destroy 0 exampleController)) 0)"
      by (rule u [THEN conjunct2, THEN conjunct1])
    show "Clipboard_destroy 0 (snd (Clipboard_destroy 0 exampleController)) =
       (None, snd (Clipboard_destroy 0 exampleController))"
      by (rule u [THEN conjunct2, THEN conjunct2, THEN conjunct2, THEN conjunct1])
    show "Clipboard_click examplePlatform 0 (Suc 0) (snd (Clipboard_destroy 0 exampleController)) =
       (None, snd (Clipboard_destroy 0 exampleController))"
      by (rule u [THEN conjunct2, THEN conjunct2, THEN conjunct2, THEN conjunct2, THEN conjunct1])
  qed
  show ?thesis
    using one none ctl d by (simp add: oneAction_simps oneAction_listeners)
qed

section \<open>The text path through the controller\<close>

text \<open>
  The same trigger and document as for claim C1, with a \<open>target\<close> option that returns
  \<open>undefined\<close> instead of the default resolver: the click creates the scratch textarea
  with the value \<open>hello\<close> and emits one \<open>success\<close> event whose text is \<open>hello\<close>. The
  text path of the executor works; it is the \<open>null\<close> of \<open>defaultTarget\<close> that closes it.
\<close>

lemma exampleControllerCustom_simps:
  "nodes exampleControllerCustom = nodes exampleWorld"
  "nextNode exampleControllerCustom = 4"
  "emitted exampleControllerCustom = []"
  "commands exampleControllerCustom = []"
  "nextAction exampleControllerCustom = 0"
  "clipboards exampleControllerCustom 0 =
     \<lparr>c_action = DefaultResolver, c_target = CustomResolver (\<lambda>trigger. JUndefined),
      c_text = DefaultResolver, c_container = 0, clipboardAction = None, listener = True\<rparr>"
  by (simp_all add: exampleControllerCustom_def Clipboard_new_def Clipboard_resolveOptions_def
        updClipboard_def Let_def exampleWorld_def examplePlatform_def)

lemma undefined_target_copies_text:
  "fst (Clipboard_click examplePlatform 0 1 exampleControllerCustom) = None \<and>
   emitted (snd (Clipboard_click examplePlatform 0 1 exampleControllerCustom)) =
     [(0, ''success'',
       \<lparr>p_action = None, p_text = ''hello'', p_trigger = Some 1, clearSelection = 0\<rparr>)] \<and>
   childNodes (nodes (snd (Clipboard_click examplePlatform 0 1 exampleControllerCustom)) 0) = [4] \<and>
   elemValue (nodes (snd (Clipboard_click examplePlatform 0 1 exampleControllerCustom)) 4) = ''hello''"
proof -
  define options where "options =
     \<lparr>o_action = None, o_container = 0, o_emitter = 0, o_target = JUndefined,
      o_text = Some ''hello'', o_trigger = Some (1::nat)\<rparr>"
  let ?r = "ClipboardAction_new examplePlatform options exampleControllerCustom"
  have eq: "Clipboard_click examplePlatform 0 1 exampleControllerCustom =
          andThen ?r (\<lambda>w2. (None, updClipboard 0 (\<lambda>c. c\<lparr>clipboardAction := Some 0\<rparr>) w2))"
    by (simp add: Clipboard_click_def Clipboard_onClick_def exampleControllerCustom_simps
          defaultAction_def defaultText_def getAttributeValue_def hasAttribute_def
          getAttribute_def exampleWorld_def emptyNode_def options_def)
  have h: "o_target options = JUndefined \<or>
           \<not> targetRejected exampleControllerCustom (o_action options) (o_target options)"
    "o_text options = Some ''hello''" "''hello'' \<noteq> []"
    "o_container options \<noteq> nextNode exampleControllerCustom"
    by (simp_all add: options_def exampleControllerCustom_simps)
  note w = new_text_world [OF h, of examplePlatform]
  have run: "?r = copyText examplePlatform 0
               (withScratch examplePlatform 0 ''hello'' (allocated options exampleControllerCustom))"
    using new_text [OF h, of examplePlatform] by (simp add: exampleControllerCustom_simps)
  have ev: "emitted (snd ?r) =
     [(0, ''success'',
       \<lparr>p_action = None, p_text = ''hello'', p_trigger = Some 1, clearSelection = 0\<rparr>)]"
    unfolding run
    by (simp add: copyText_simps withScratch_simps eventOf_def exampleControllerCustom_simps
          resolvedAction_def options_def examplePlatform_def)
  have ch: "childNodes (nodes (snd ?r) 0) = [4]"
    using w(3) by (simp add: options_def exampleControllerCustom_simps exampleWorld_def
                     emptyNode_def)
  have va: "elemValue (nodes (snd ?r) 4) = ''hello''"
    using w(4) by (simp add: exampleControllerCustom_simps scratchNode_def)
  show ?thesis
    unfolding eq using w(1) ev ch va by (simp add: andThen_ok updClipboard_simps)
qed

end
